theory Spec2Isabelle
  imports Complex_Main "HOL-Library.AList"
begin

section \<open>JavaScript values and strings\<close>

text \<open>
  A value produced by \<^verbatim>\<open>JSON.parse\<close>. JavaScript numbers are modelled as exact
  rationals: the code only compares them with constants, rounds them and adds small
  integers. An absent property (\<^verbatim>\<open>undefined\<close>) is \<open>None\<close> of \<open>json option\<close>.
\<close>

datatype json =
    JNull
  | JBool bool
  | JNumber rat
  | JString string
  | JArray "json list"
  | JObject "(string \<times> json) list"

text \<open>
  Strings are sequences of bytes (UTF-8). \<^verbatim>\<open>String.prototype.trim\<close> removes white
  space at both ends; the ASCII white space is modelled (tab, line feed, vertical tab,
  form feed, carriage return, space), the white space beyond ASCII is not.
\<close>

definition is_ws :: "char \<Rightarrow> bool" where
  "is_ws c = (c \<in> {CHR '' '', CHR 0x09, CHR 0x0A, CHR 0x0B, CHR 0x0C, CHR 0x0D})"

definition trim :: "string \<Rightarrow> string" where
  "trim s = rev (dropWhile is_ws (rev (dropWhile is_ws s)))"

text \<open>The character U+2026 of the status messages, in UTF-8.\<close>

definition ellipsis :: string where
  "ellipsis = [CHR 0xE2, CHR 0x80, CHR 0xA6]"

section \<open>Wire messages (src/server/ma/types.ts)\<close>

record MAServerInfoMessage =
  server_id :: string
  server_version :: string
  schema_version :: rat
  min_supported_schema_version :: "rat option"

record MAEventMessage =
  event :: string
  object_id :: "string option"
  data :: "json option"

text \<open>
  \<^verbatim>\<open>MAResultSuccessMessage | MAResultErrorMessage\<close>: message id, result and partial
  flag; or message id, error code and details.
\<close>

datatype MAResultMessage =
    ResultSuccess string "json option" bool
  | ResultError string string "string option"

fun message_id :: "MAResultMessage \<Rightarrow> string" where
  "message_id (ResultSuccess mid r p) = mid"
| "message_id (ResultError mid c d) = mid"

section \<open>Wire codec (src/server/ma/client.ts)\<close>

text \<open>
  \<^verbatim>\<open>asRecord\<close>: \<^verbatim>\<open>typeof value === 'object' && value !== null\<close>. An array is an object
  too; none of the property names the codec reads (\<^verbatim>\<open>server_id\<close>, \<^verbatim>\<open>event\<close>,
  \<^verbatim>\<open>message_id\<close>, ...) is a property of an array, so an array reads as a record
  without fields.
\<close>

fun asRecord :: "json \<Rightarrow> (string \<times> json) list option" where
  "asRecord (JObject fs) = Some fs"
| "asRecord (JArray xs) = Some []"
| "asRecord v = None"

definition field :: "(string \<times> json) list \<Rightarrow> string \<Rightarrow> json option" where
  "field fs k = map_of fs k"

definition parseServerInfo :: "(string \<times> json) list \<Rightarrow> MAServerInfoMessage option" where
  "parseServerInfo msg =
     (case (field msg ''server_id'', field msg ''server_version'', field msg ''schema_version'') of
        (Some (JString serverId), Some (JString serverVersion), Some (JNumber schemaVersion)) \<Rightarrow>
          Some \<lparr> server_id = serverId, server_version = serverVersion,
                 schema_version = schemaVersion,
                 min_supported_schema_version =
                   (case field msg ''min_supported_schema_version'' of
                      Some (JNumber m) \<Rightarrow> Some m | _ \<Rightarrow> None) \<rparr>
      | _ \<Rightarrow> None)"

definition parseEventMessage :: "(string \<times> json) list \<Rightarrow> MAEventMessage option" where
  "parseEventMessage msg =
     (case field msg ''event'' of
        Some (JString ev) \<Rightarrow>
          Some \<lparr> event = ev,
                 object_id = (case field msg ''object_id'' of
                                Some (JString oid) \<Rightarrow> Some oid | _ \<Rightarrow> None),
                 data = field msg ''data'' \<rparr>
      | _ \<Rightarrow> None)"

definition parseResultMessage :: "(string \<times> json) list \<Rightarrow> MAResultMessage option" where
  "parseResultMessage msg =
     (case field msg ''message_id'' of
        Some (JString messageId) \<Rightarrow>
          (case field msg ''error_code'' of
             Some (JString errorCode) \<Rightarrow>
               Some (ResultError messageId errorCode
                       (case field msg ''details'' of
                          Some (JString d) \<Rightarrow> Some d | _ \<Rightarrow> None))
           | _ \<Rightarrow>
               Some (ResultSuccess messageId (field msg ''result'')
                       (field msg ''partial'' = Some (JBool True))))
      | _ \<Rightarrow> None)"

section \<open>The client (class MusicAssistantClient)\<close>

datatype ReadyState = CONNECTING | OPEN | CLOSING | CLOSED

datatype MAConnectionState =
  Disconnected | Connecting | Connected | Authenticating | Authenticated | Error

text \<open>
  \<^verbatim>\<open>MAStatusSnapshot\<close>; the fields \<^verbatim>\<open>state\<close>, \<^verbatim>\<open>message\<close>, \<^verbatim>\<open>connected\<close>,
  \<^verbatim>\<open>authenticated\<close>, \<^verbatim>\<open>authRequired\<close>, \<^verbatim>\<open>serverInfo\<close> carry the prefix
  \<open>snap_\<close> to keep them apart from the fields of the client.
\<close>

record MAStatusSnapshot =
  snap_state :: MAConnectionState
  snap_message :: string
  snap_connected :: bool
  snap_authenticated :: bool
  snap_authRequired :: bool
  snap_serverInfo :: "MAServerInfoMessage option"

text \<open>
  Who awaits the promise of a command: code outside the client, or the rest of
  \<^verbatim>\<open>authenticateWithToken\<close> (with the token it was given), called from
  \<^verbatim>\<open>handleServerInfo\<close> (inside its try/catch) or from outside.
\<close>

datatype awaiter = Caller | AuthFromServerInfo string | AuthFromCaller string

text \<open>
  \<^verbatim>\<open>PendingRequest\<close>. The promise of the request and its timer are created together
  in \<^verbatim>\<open>sendCommand\<close>; both are named by the handle \<open>timeout\<close>. The closures
  \<^verbatim>\<open>resolve\<close> and \<^verbatim>\<open>reject\<close> settle that promise and wake \<open>awaiting\<close>.
\<close>

record PendingRequest =
  timeout :: nat
  awaiting :: awaiter
  partialResults :: "json list"

text \<open>What the callback of a command timer closes over.\<close>

record TimerClosure =
  tc_messageId :: string
  tc_command :: string
  tc_awaiting :: awaiter

text \<open>What the client does to the world, in the order it does it.\<close>

datatype effect =
    SetTimeout nat nat
  | ClearTimeout nat
  | SocketSend json
  | SocketCloseCall
  | SocketTerminateCall
  | Resolve nat "json option"
  | Reject nat string
  | StatusBroadcast MAStatusSnapshot
  | EventDispatch MAEventMessage

text \<open>
  The private fields of the client. \<open>ws\<close> is the current socket, by its
  \<^verbatim>\<open>readyState\<close>; \<open>pending\<close> is the \<^verbatim>\<open>Map\<close> in insertion order; \<open>timers\<close>
  holds the armed command timers of the runtime; \<open>next_handle\<close> numbers promises and
  timers; \<open>microtasks\<close> are the settled promises whose awaiting code has not run yet;
  \<open>log\<close> records the effects.
\<close>

record client =
  ws :: "ReadyState option"
  authToken :: string
  state :: MAConnectionState
  message :: string
  authenticated :: bool
  serverInfo :: "MAServerInfoMessage option"
  pending :: "(string \<times> PendingRequest) list"
  timers :: "nat \<rightharpoonup> TimerClosure"
  next_handle :: nat
  microtasks :: "(awaiter \<times> (string + json option)) list"
  log :: "effect list"

definition COMMAND_TIMEOUT_MS :: nat where
  "COMMAND_TIMEOUT_MS = 12000"

definition new_client :: client where
  "new_client = \<lparr> ws = None, authToken = [], state = Disconnected,
                   message = ''Not connected.'', authenticated = False, serverInfo = None,
                   pending = [], timers = Map.empty, next_handle = 0, microtasks = [],
                   log = [] \<rparr>"

definition emit_effect :: "effect \<Rightarrow> client \<Rightarrow> client" where
  "emit_effect e s = s\<lparr> log := log s @ [e] \<rparr>"

definition getStatus :: "client \<Rightarrow> MAStatusSnapshot" where
  "getStatus s =
     \<lparr> snap_state = state s, snap_message = message s,
       snap_connected = (ws s = Some OPEN),
       snap_authenticated = authenticated s,
       snap_authRequired =
         (case serverInfo s of
            None \<Rightarrow> False
          | Some info \<Rightarrow> schema_version info \<ge> 28 \<and> \<not> authenticated s),
       snap_serverInfo = serverInfo s \<rparr>"

definition isConnected :: "client \<Rightarrow> bool" where
  "isConnected s = (ws s = Some OPEN)"

definition updateStatus :: "MAConnectionState \<Rightarrow> string \<Rightarrow> bool option \<Rightarrow> client \<Rightarrow> client" where
  "updateStatus st msg auth s =
     (let s1 = s\<lparr> state := st, message := msg \<rparr>;
          s2 = (case auth of None \<Rightarrow> s1 | Some a \<Rightarrow> s1\<lparr> authenticated := a \<rparr>)
      in emit_effect (StatusBroadcast (getStatus s2)) s2)"

text \<open>\<^verbatim>\<open>clearTimeout\<close>, and the two closures of a pending request.\<close>

definition clearTimeout :: "nat \<Rightarrow> client \<Rightarrow> client" where
  "clearTimeout h s = emit_effect (ClearTimeout h) (s\<lparr> timers := (timers s)(h := None) \<rparr>)"

definition call_resolve :: "nat \<Rightarrow> awaiter \<Rightarrow> json option \<Rightarrow> client \<Rightarrow> client" where
  "call_resolve h a v s =
     emit_effect (Resolve h v) (s\<lparr> microtasks := microtasks s @ [(a, Inr v)] \<rparr>)"

definition call_reject :: "nat \<Rightarrow> awaiter \<Rightarrow> string \<Rightarrow> client \<Rightarrow> client" where
  "call_reject h a msg s =
     emit_effect (Reject h msg) (s\<lparr> microtasks := microtasks s @ [(a, Inl msg)] \<rparr>)"

text \<open>\<^verbatim>\<open>rejectPendingRequests\<close>: the body of its loop, and the loop over the entries.\<close>

definition reject_one :: "string \<Rightarrow> string \<times> PendingRequest \<Rightarrow> client \<Rightarrow> client" where
  "reject_one msg = (\<lambda>(messageId, p) s.
     (call_reject (timeout p) (awaiting p) msg (clearTimeout (timeout p) s))
       \<lparr> pending := AList.delete messageId (pending s) \<rparr>)"

definition rejectPendingRequests :: "string \<Rightarrow> client \<Rightarrow> client" where
  "rejectPendingRequests msg s = fold (reject_one msg) (pending s) s"

definition disconnect :: "string \<Rightarrow> client \<Rightarrow> client" where
  "disconnect reason s =
     (let socket = ws s;
          s1 = s\<lparr> ws := None \<rparr>;
          s2 = (case socket of
                  Some CONNECTING \<Rightarrow> emit_effect SocketTerminateCall s1
                | Some OPEN \<Rightarrow> emit_effect SocketCloseCall s1
                | _ \<Rightarrow> s1);
          s3 = rejectPendingRequests reason s2;
          s4 = s3\<lparr> authenticated := False, serverInfo := None \<rparr>
      in updateStatus Disconnected reason (Some False) s4)"

text \<open>
  \<^verbatim>\<open>sendCommand\<close>, up to the point where it returns its promise. \<open>messageId\<close> is
  the value \<^verbatim>\<open>randomUUID()\<close> returns. \<open>Inl\<close> is the error thrown; \<open>Inr\<close> gives the
  handle of the promise returned and the new state.
\<close>

definition command_payload :: "string \<Rightarrow> string \<Rightarrow> (string \<times> json) list option \<Rightarrow> json" where
  "command_payload command messageId args =
     JObject ([(''command'', JString command), (''message_id'', JString messageId)]
              @ (case args of
                   None \<Rightarrow> []
                 | Some a \<Rightarrow> if length a > 0 then [(''args'', JObject a)] else []))"

definition sendCommand ::
  "awaiter \<Rightarrow> string \<Rightarrow> string \<Rightarrow> (string \<times> json) list option \<Rightarrow> client \<Rightarrow> string + (nat \<times> client)" where
  "sendCommand who messageId command args s =
     (if ws s \<noteq> Some OPEN then Inl ''Not connected to Music Assistant.''
      else
        let h = next_handle s;
            s1 = emit_effect (SetTimeout h COMMAND_TIMEOUT_MS)
                   (s\<lparr> next_handle := Suc h,
                       timers := (timers s)(h \<mapsto> \<lparr> tc_messageId = messageId,
                                                   tc_command = command,
                                                   tc_awaiting = who \<rparr>) \<rparr>);
            s2 = s1\<lparr> pending := AList.update messageId
                                   \<lparr> timeout = h, awaiting = who, partialResults = [] \<rparr>
                                   (pending s1) \<rparr>;
            s3 = emit_effect (SocketSend (command_payload command messageId args)) s2
        in Inr (h, s3))"

text \<open>The callback of a command timer; a timer that is not armed does not fire.\<close>

definition timer_fires :: "nat \<Rightarrow> client \<Rightarrow> client" where
  "timer_fires h s =
     (case timers s h of
        None \<Rightarrow> s
      | Some tc \<Rightarrow>
          let s1 = s\<lparr> timers := (timers s)(h := None) \<rparr>;
              s2 = s1\<lparr> pending := AList.delete (tc_messageId tc) (pending s1) \<rparr>
          in call_reject h (tc_awaiting tc)
               (''Music Assistant command timeout: '' @ tc_command tc) s2)"

text \<open>
  \<^verbatim>\<open>authenticateWithToken\<close> up to its \<^verbatim>\<open>await\<close>; the rest runs when the promise of
  the \<^verbatim>\<open>auth\<close> command settles (\<open>run_awaiter\<close> below).
\<close>

definition authenticateWithToken :: "awaiter \<Rightarrow> string \<Rightarrow> string \<Rightarrow> client \<Rightarrow> string + client" where
  "authenticateWithToken who messageId token s =
     (if trim token = [] then Inl ''Token is empty.''
      else if \<not> isConnected s then Inl ''Not connected to Music Assistant.''
      else
        let s1 = updateStatus Authenticating
                   (''Authenticating with Music Assistant'' @ ellipsis) (Some False) s
        in case sendCommand who messageId ''auth'' (Some [(''token'', JString (trim token))]) s1 of
             Inl e \<Rightarrow> Inl e
           | Inr (h, s2) \<Rightarrow> Inr s2)"

definition handleServerInfo :: "string \<Rightarrow> MAServerInfoMessage \<Rightarrow> client \<Rightarrow> client" where
  "handleServerInfo messageId info s0 =
     (let s = s0\<lparr> serverInfo := Some info \<rparr> in
      if schema_version info \<ge> 28 then
        (if authToken s = [] then
           updateStatus Connected
             ''Authentication required. Use provider login or set a token.'' (Some False) s
         else
           case authenticateWithToken (AuthFromServerInfo (authToken s)) messageId (authToken s) s of
             Inl e \<Rightarrow> updateStatus Error (''Authentication failed: '' @ e) (Some False) s
           | Inr s' \<Rightarrow> s')
      else updateStatus Authenticated ''Connected.'' (Some True) s)"

text \<open>
  The code that runs after an awaited command promise has settled: the tail of
  \<^verbatim>\<open>authenticateWithToken\<close>, and the catch block of \<^verbatim>\<open>handleServerInfo\<close>. Code
  awaiting outside the client is not part of the client.
\<close>

fun run_awaiter :: "awaiter \<times> (string + json option) \<Rightarrow> client \<Rightarrow> client" where
  "run_awaiter (Caller, r) s = s"
| "run_awaiter (AuthFromServerInfo token, Inr v) s =
     updateStatus Authenticated ''Connected and authenticated.'' (Some True)
       (s\<lparr> authToken := trim token \<rparr>)"
| "run_awaiter (AuthFromServerInfo token, Inl e) s =
     updateStatus Error (''Authentication failed: '' @ e) (Some False) s"
| "run_awaiter (AuthFromCaller token, Inr v) s =
     updateStatus Authenticated ''Connected and authenticated.'' (Some True)
       (s\<lparr> authToken := trim token \<rparr>)"
| "run_awaiter (AuthFromCaller token, Inl e) s = s"

definition run_microtasks :: "client \<Rightarrow> client" where
  "run_microtasks s = fold run_awaiter (microtasks s) (s\<lparr> microtasks := [] \<rparr>)"

definition handleResultMessage :: "MAResultMessage \<Rightarrow> client \<Rightarrow> client" where
  "handleResultMessage msg s =
     (case map_of (pending s) (message_id msg) of
        None \<Rightarrow> s
      | Some p \<Rightarrow>
          (case msg of
             ResultError mid error_code details \<Rightarrow>
               let s1 = clearTimeout (timeout p) s;
                   s2 = s1\<lparr> pending := AList.delete mid (pending s1) \<rparr>
               in call_reject (timeout p) (awaiting p)
                    (case details of
                       Some d \<Rightarrow> if d \<noteq> [] then d else error_code
                     | None \<Rightarrow> error_code) s2
           | ResultSuccess mid result partial \<Rightarrow>
               if partial then
                 (case result of
                    Some (JArray items) \<Rightarrow>
                      s\<lparr> pending := AList.update mid
                                       (p\<lparr> partialResults := partialResults p @ items \<rparr>)
                                       (pending s) \<rparr>
                  | _ \<Rightarrow> s)
               else
                 let s1 = clearTimeout (timeout p) s;
                     s2 = s1\<lparr> pending := AList.delete mid (pending s1) \<rparr>
                 in (case result of
                       Some (JArray items) \<Rightarrow>
                         if length (partialResults p) > 0
                         then call_resolve (timeout p) (awaiting p)
                                (Some (JArray (partialResults p @ items))) s2
                         else call_resolve (timeout p) (awaiting p) result s2
                     | _ \<Rightarrow> call_resolve (timeout p) (awaiting p) result s2)))"

text \<open>
  \<^verbatim>\<open>handleMessage\<close>. \<open>JSON_parse\<close> stands for \<^verbatim>\<open>JSON.parse\<close> (\<open>None\<close> where it
  throws); \<open>messageId\<close> is what \<^verbatim>\<open>randomUUID()\<close> returns, should the frame lead to
  an \<^verbatim>\<open>auth\<close> command.
\<close>

definition handleMessage :: "(string \<Rightarrow> json option) \<Rightarrow> string \<Rightarrow> string \<Rightarrow> client \<Rightarrow> client" where
  "handleMessage JSON_parse messageId rawText s =
     (case JSON_parse rawText of
        None \<Rightarrow> s
      | Some msg \<Rightarrow>
          (case asRecord msg of
             None \<Rightarrow> s
           | Some parsed \<Rightarrow>
               (case parseServerInfo parsed of
                  Some info \<Rightarrow> handleServerInfo messageId info s
                | None \<Rightarrow>
                    (case parseEventMessage parsed of
                       Some ev \<Rightarrow> emit_effect (EventDispatch ev) s
                     | None \<Rightarrow>
                         (case parseResultMessage parsed of
                            Some r \<Rightarrow> handleResultMessage r s
                          | None \<Rightarrow> s)))))"

section \<open>The client as a transition system\<close>

text \<open>
  The synchronous part of \<^verbatim>\<open>connect\<close> (with a base URL configured), and the
  handlers it installs on the socket. A handler of a socket that is no longer
  \<^verbatim>\<open>this.ws\<close> returns at once, so only the current socket has events here.
\<close>

definition connect_start :: "client \<Rightarrow> client" where
  "connect_start s =
     (let s1 = disconnect (''Reconnecting'' @ ellipsis) s;
          s2 = s1\<lparr> serverInfo := None, authenticated := False \<rparr>;
          s3 = updateStatus Connecting (''Connecting to Music Assistant'' @ ellipsis) (Some False) s2
      in s3\<lparr> ws := Some CONNECTING \<rparr>)"

definition on_open :: "client \<Rightarrow> client" where
  "on_open s =
     (if ws s = Some CONNECTING
      then updateStatus Connected (''Connected. Waiting for server info'' @ ellipsis) (Some False)
             (s\<lparr> ws := Some OPEN \<rparr>)
      else s)"

definition on_connect_failed :: "string \<Rightarrow> client \<Rightarrow> client" where
  "on_connect_failed e s =
     disconnect ''Disconnected after connection error.''
       (updateStatus Error (''Connection failed: '' @ e) (Some False) s)"

definition on_close :: "client \<Rightarrow> client" where
  "on_close s =
     (if ws s = None then s
      else
        let s1 = updateStatus Disconnected ''Disconnected from Music Assistant.'' (Some False)
                   (s\<lparr> ws := Some CLOSED \<rparr>);
            s2 = rejectPendingRequests ''Socket closed.'' s1
        in s2\<lparr> ws := None \<rparr>)"

definition on_error :: "string \<Rightarrow> client \<Rightarrow> client" where
  "on_error e s =
     (if ws s = None then s
      else updateStatus Error (''Socket error: '' @ e) (Some False) s)"

definition on_message :: "(string \<Rightarrow> json option) \<Rightarrow> string \<Rightarrow> string \<Rightarrow> client \<Rightarrow> client" where
  "on_message JSON_parse messageId rawText s =
     (if ws s = None then s else handleMessage JSON_parse messageId rawText s)"

text \<open>
  What can happen to the client: calls of its public methods by the plugin, events of
  the current socket, and a command timer firing. A call that needs a message id
  carries the value \<^verbatim>\<open>randomUUID()\<close> returns.
\<close>

datatype event =
    EvConnect
  | EvSocketOpen
  | EvConnectFailed string
  | EvSocketClosing
  | EvSocketClose
  | EvSocketError string
  | EvMessage string string
  | EvTimer nat
  | EvDisconnect string
  | EvSetAuthToken string
  | EvSendCommand string string "(string \<times> json) list option"
  | EvAuthenticate string string

fun handle_event :: "(string \<Rightarrow> json option) \<Rightarrow> event \<Rightarrow> client \<Rightarrow> client" where
  "handle_event P EvConnect s = connect_start s"
| "handle_event P EvSocketOpen s = on_open s"
| "handle_event P (EvConnectFailed e) s = on_connect_failed e s"
| "handle_event P EvSocketClosing s = (if ws s = Some OPEN then s\<lparr> ws := Some CLOSING \<rparr> else s)"
| "handle_event P EvSocketClose s = on_close s"
| "handle_event P (EvSocketError e) s = on_error e s"
| "handle_event P (EvMessage messageId rawText) s = on_message P messageId rawText s"
| "handle_event P (EvTimer h) s = timer_fires h s"
| "handle_event P (EvDisconnect reason) s = disconnect reason s"
| "handle_event P (EvSetAuthToken token) s = s\<lparr> authToken := trim token \<rparr>"
| "handle_event P (EvSendCommand messageId command args) s =
     (case sendCommand Caller messageId command args s of Inl e \<Rightarrow> s | Inr (h, s') \<Rightarrow> s')"
| "handle_event P (EvAuthenticate messageId token) s =
     (case authenticateWithToken (AuthFromCaller token) messageId token s of
        Inl e \<Rightarrow> s | Inr s' \<Rightarrow> s')"

text \<open>One turn of the event loop: the handler, then the promise reactions it queued.\<close>

definition step :: "(string \<Rightarrow> json option) \<Rightarrow> event \<Rightarrow> client \<Rightarrow> client" where
  "step P e s = run_microtasks (handle_event P e s)"

fun run :: "(string \<Rightarrow> json option) \<Rightarrow> event list \<Rightarrow> client \<Rightarrow> client" where
  "run P [] s = s"
| "run P (e # es) s = run P es (step P e s)"

text \<open>
  A message id is not reused while it is in flight: every id an event brings is not a
  key of the pending table at that moment.
\<close>

fun event_id :: "event \<Rightarrow> string option" where
  "event_id (EvMessage messageId rawText) = Some messageId"
| "event_id (EvSendCommand messageId command args) = Some messageId"
| "event_id (EvAuthenticate messageId token) = Some messageId"
| "event_id e = None"

definition id_fresh :: "event \<Rightarrow> client \<Rightarrow> bool" where
  "id_fresh e s = (case event_id e of None \<Rightarrow> True | Some u \<Rightarrow> map_of (pending s) u = None)"

fun ids_fresh :: "(string \<Rightarrow> json option) \<Rightarrow> event list \<Rightarrow> client \<Rightarrow> bool" where
  "ids_fresh P [] s = True"
| "ids_fresh P (e # es) s = (id_fresh e s \<and> ids_fresh P es (step P e s))"

text \<open>The calls of \<^verbatim>\<open>resolve\<close> and \<^verbatim>\<open>reject\<close> of the request with handle \<open>h\<close>.\<close>

fun settles :: "nat \<Rightarrow> effect \<Rightarrow> bool" where
  "settles h (Resolve h' v) = (h' = h)"
| "settles h (Reject h' m) = (h' = h)"
| "settles h e = False"

definition settlements :: "nat \<Rightarrow> client \<Rightarrow> effect list" where
  "settlements h s = filter (settles h) (log s)"

definition pending_handles :: "client \<Rightarrow> nat set" where
  "pending_handles s = (\<lambda>(k, p). timeout p) ` set (pending s)"

text \<open>
  The state of the table, the timers and the log agree: a request in the table has its
  timer armed and no settlement; a request outside it has no timer and, if it was ever
  created, one settlement. And nothing is pending without a socket.
\<close>

definition table_core :: "client \<Rightarrow> bool" where
  "table_core s =
     (distinct (map fst (pending s)) \<and>
      distinct (map (\<lambda>(k, p). timeout p) (pending s)) \<and>
      (\<forall>(k, p) \<in> set (pending s).
          timeout p < next_handle s \<and>
          settlements (timeout p) s = [] \<and>
          (\<exists>tc. timers s (timeout p) = Some tc \<and> tc_messageId tc = k
                \<and> tc_awaiting tc = awaiting p)) \<and>
      (\<forall>h. h \<notin> pending_handles s \<longrightarrow>
          timers s h = None \<and>
          length (settlements h s) = (if h < next_handle s then 1 else 0)))"

definition table_ok :: "client \<Rightarrow> bool" where
  "table_ok s = (table_core s \<and> (ws s = None \<longrightarrow> pending s = []))"

section \<open>Players and volume (src/server/index.ts)\<close>

text \<open>
  \<^verbatim>\<open>MAPlayer\<close>, with the fields the functions below read. An optional field that is
  absent (or \<^verbatim>\<open>null\<close>) is \<open>None\<close>.
\<close>

record MAPlayer =
  player_id :: string
  active_source :: "string option"
  volume_level :: "rat option"
  group_members :: "string list option"
  synced_to :: "string option"
  active_group :: "string option"


definition findPlayerById :: "MAPlayer list \<Rightarrow> string option \<Rightarrow> MAPlayer option" where
  "findPlayerById playersCache playerId =
     (case playerId of
        None \<Rightarrow> None
      | Some pid \<Rightarrow>
          if pid = [] then None
          else List.find (\<lambda>player. player_id player = pid) playersCache)"


text \<open>\<^verbatim>\<open>Array.from(new Set(xs))\<close>: the first occurrence of each element, in order.\<close>

fun array_from_set :: "'a list \<Rightarrow> 'a list" where
  "array_from_set [] = []"
| "array_from_set (x # xs) = x # array_from_set (filter (\<lambda>y. y \<noteq> x) xs)"

text \<open>The parent id computed in the loop of \<^verbatim>\<open>resolveControllingPlayer\<close>.\<close>

definition parentId :: "MAPlayer \<Rightarrow> string option" where
  "parentId current =
     (let a = (case synced_to current of Some x \<Rightarrow> trim x | None \<Rightarrow> []);
          b = (case active_group current of Some x \<Rightarrow> trim x | None \<Rightarrow> [])
      in if a \<noteq> [] then Some a else if b \<noteq> [] then Some b else None)"

text \<open>The while loop of \<^verbatim>\<open>resolveControllingPlayer\<close>, from \<open>current\<close> and \<open>visited\<close>.\<close>

function walk_parents :: "MAPlayer list \<Rightarrow> MAPlayer option \<Rightarrow> string set \<Rightarrow> MAPlayer option" where
  "walk_parents playersCache current visited =
     (case current of
        None \<Rightarrow> None
      | Some cur \<Rightarrow>
          if player_id cur \<in> visited then Some cur
          else
            (case parentId cur of
               None \<Rightarrow> Some cur
             | Some pid \<Rightarrow>
                 if pid = player_id cur then Some cur
                 else
                   (case findPlayerById playersCache (Some pid) of
                      None \<Rightarrow> Some cur
                    | Some parent \<Rightarrow>
                        walk_parents playersCache (Some parent)
                          (insert (player_id cur) visited))))"
  by pat_completeness auto
termination
proof (relation "measure (\<lambda>(playersCache, current, visited).
          card (player_id ` set playersCache - visited) +
          (case current of
             None \<Rightarrow> 0
           | Some c \<Rightarrow> if player_id c \<in> player_id ` set playersCache then 0 else 1))")
  show "wf (measure (\<lambda>(playersCache, current, visited).
          card (player_id ` set playersCache - visited) +
          (case current of
             None \<Rightarrow> 0
           | Some c \<Rightarrow> if player_id c \<in> player_id ` set playersCache then 0 else 1)))"
    by simp
next
  fix playersCache :: "MAPlayer list" and current :: "MAPlayer option"
    and visited :: "string set" and cur :: MAPlayer and pid :: string and parent :: MAPlayer
  assume cur: "current = Some cur"
    and fresh: "player_id cur \<notin> visited"
    and found: "findPlayerById playersCache (Some pid) = Some parent"
  have par: "player_id parent \<in> player_id ` set playersCache"
    using found by (auto simp: findPlayerById_def find_Some_iff split: if_splits)
  show "((playersCache, Some parent, insert (player_id cur) visited),
         (playersCache, current, visited))
        \<in> measure (\<lambda>(playersCache, current, visited).
          card (player_id ` set playersCache - visited) +
          (case current of
             None \<Rightarrow> 0
           | Some c \<Rightarrow> if player_id c \<in> player_id ` set playersCache then 0 else 1))"
  proof (cases "player_id cur \<in> player_id ` set playersCache")
    case True
    have "player_id ` set playersCache - insert (player_id cur) visited
            \<subset> player_id ` set playersCache - visited"
      using True fresh by auto
    then have "card (player_id ` set playersCache - insert (player_id cur) visited)
                 < card (player_id ` set playersCache - visited)"
      by (intro psubset_card_mono) simp_all
    then show ?thesis using par True cur by simp
  next
    case False
    then have "player_id ` set playersCache - insert (player_id cur) visited
                 = player_id ` set playersCache - visited"
      by auto
    then show ?thesis using par False cur by simp
  qed
qed

declare walk_parents.simps [simp del]









section \<open>Polling (pollState in src/server/index.ts)\<close>








section \<open>Auxiliary definitions: shapes of frames, parent steps, examples\<close>

text \<open>\<^verbatim>\<open>typeof v === 'string'\<close> and \<^verbatim>\<open>typeof v === 'number'\<close> of a property read.\<close>

fun is_string :: "json option \<Rightarrow> bool" where
  "is_string (Some (JString x)) = True"
| "is_string v = False"

fun is_number :: "json option \<Rightarrow> bool" where
  "is_number (Some (JNumber x)) = True"
| "is_number v = False"

text \<open>
  The client after \<^verbatim>\<open>connect\<close> and the socket's \<^verbatim>\<open>open\<close>; and the same after one
  \<^verbatim>\<open>sendCommand('players/all')\<close> that got the message id \<open>u1\<close>.
\<close>

definition open_client :: client where
  "open_client = run Map.empty [EvConnect, EvSocketOpen] new_client"

definition one_request :: client where
  "one_request = run Map.empty [EvSendCommand ''u1'' ''players/all'' None] open_client"

text \<open>
  What \<^verbatim>\<open>JSON.parse\<close> returns on six frames (written here without their double
  quotes): a broken one, a number, a frame with the fields of all three shapes, an event
  that also has a message id, a partial result, and an empty object.
\<close>

definition example_parse :: "string \<Rightarrow> json option" where
  "example_parse raw =
     (if raw = ''{server_id:'' then None
      else if raw = ''42'' then Some (JNumber 42)
      else if raw = ''{server_id:srv,server_version:2.0,schema_version:27,event:e,message_id:u1}''
      then Some (JObject [(''server_id'', JString ''srv''), (''server_version'', JString ''2.0''),
                          (''schema_version'', JNumber 27), (''event'', JString ''e''),
                          (''message_id'', JString ''u1'')])
      else if raw = ''{event:queue_updated,message_id:u1}''
      then Some (JObject [(''event'', JString ''queue_updated''), (''message_id'', JString ''u1'')])
      else if raw = ''{message_id:u1,result:[a],partial:true}''
      then Some (JObject [(''message_id'', JString ''u1''), (''result'', JArray [JString ''a'']),
                          (''partial'', JBool True)])
      else if raw = ''{}'' then Some (JObject [])
      else None)"







section \<open>The pending table: what each operation does to it\<close>

lemma rejectPendingRequests_fold: "rejectPendingRequests msg s = fold (reject_one msg) (pending s) s"
  by (simp add: rejectPendingRequests_def)

lemma reject_one_fields:
  "pending (reject_one msg (k, p) s) = filter (\<lambda>kp. fst kp \<noteq> k) (pending s)"
  "timers (reject_one msg (k, p) s) = (timers s)(timeout p := None)"
  "log (reject_one msg (k, p) s) = log s @ [ClearTimeout (timeout p), Reject (timeout p) msg]"
  "microtasks (reject_one msg (k, p) s) = microtasks s @ [(awaiting p, Inl msg)]"
  "ws (reject_one msg (k, p) s) = ws s"
  "next_handle (reject_one msg (k, p) s) = next_handle s"
  "authToken (reject_one msg (k, p) s) = authToken s"
  "state (reject_one msg (k, p) s) = state s"
  "message (reject_one msg (k, p) s) = message s"
  "authenticated (reject_one msg (k, p) s) = authenticated s"
  "serverInfo (reject_one msg (k, p) s) = serverInfo s"
  by (auto simp: reject_one_def call_reject_def clearTimeout_def emit_effect_def
        AList.delete_eq split_def intro: filter_cong)

lemma fold_reject_pending:
  "pending (fold (reject_one msg) xs s) = filter (\<lambda>kp. fst kp \<notin> fst ` set xs) (pending s)"
proof (induction xs arbitrary: s)
  case Nil
  show ?case by simp
next
  case (Cons x xs)
  obtain k p where x: "x = (k, p)" by (cases x)
  show ?case
    unfolding x by (simp add: Cons.IH reject_one_fields conj_commute)
qed

lemma fold_reject_timers:
  "timers (fold (reject_one msg) xs s) h =
     (if h \<in> (\<lambda>(k, p). timeout p) ` set xs then None else timers s h)"
proof (induction xs arbitrary: s)
  case Nil
  show ?case by simp
next
  case (Cons x xs)
  obtain k p where x: "x = (k, p)" by (cases x)
  show ?case
    unfolding x by (auto simp add: Cons.IH reject_one_fields)
qed

lemma fold_reject_log:
  "log (fold (reject_one msg) xs s) =
     log s @ concat (map (\<lambda>(k, p). [ClearTimeout (timeout p), Reject (timeout p) msg]) xs)"
proof (induction xs arbitrary: s)
  case Nil
  show ?case by simp
next
  case (Cons x xs)
  obtain k p where x: "x = (k, p)" by (cases x)
  show ?case
    unfolding x by (simp add: Cons.IH reject_one_fields)
qed

lemma fold_reject_microtasks:
  "microtasks (fold (reject_one msg) xs s) =
     microtasks s @ map (\<lambda>(k, p). (awaiting p, Inl msg)) xs"
proof (induction xs arbitrary: s)
  case Nil
  show ?case by simp
next
  case (Cons x xs)
  obtain k p where x: "x = (k, p)" by (cases x)
  show ?case
    unfolding x by (simp add: Cons.IH reject_one_fields)
qed

lemma fold_reject_other:
  "ws (fold (reject_one msg) xs s) = ws s"
  "next_handle (fold (reject_one msg) xs s) = next_handle s"
  "authToken (fold (reject_one msg) xs s) = authToken s"
  "state (fold (reject_one msg) xs s) = state s"
  "message (fold (reject_one msg) xs s) = message s"
  "authenticated (fold (reject_one msg) xs s) = authenticated s"
  "serverInfo (fold (reject_one msg) xs s) = serverInfo s"
  by (induction xs arbitrary: s) (auto simp: reject_one_fields)

lemma rejectPendingRequests_pending [simp]: "pending (rejectPendingRequests msg s) = []"
  by (force simp: rejectPendingRequests_fold fold_reject_pending filter_empty_conv image_iff)

lemma table_core_cong:
  assumes "table_core s"
    and "pending s' = pending s" and "timers s' = timers s"
    and "next_handle s' = next_handle s"
    and "\<And>h. settlements h s' = settlements h s"
  shows "table_core s'"
  using assms unfolding table_core_def pending_handles_def by simp

lemma table_ok_cong:
  assumes "table_ok s"
    and "pending s' = pending s" and "timers s' = timers s"
    and "next_handle s' = next_handle s" and "ws s' = None \<longrightarrow> ws s = None"
    and "\<And>h. settlements h s' = settlements h s"
  shows "table_ok s'"
  using assms table_core_cong [of s s'] unfolding table_ok_def by auto

lemma updateStatus_fields [simp]:
  "pending (updateStatus st m a s) = pending s"
  "timers (updateStatus st m a s) = timers s"
  "next_handle (updateStatus st m a s) = next_handle s"
  "ws (updateStatus st m a s) = ws s"
  "microtasks (updateStatus st m a s) = microtasks s"
  "authToken (updateStatus st m a s) = authToken s"
  "serverInfo (updateStatus st m a s) = serverInfo s"
  "state (updateStatus st m a s) = st"
  "message (updateStatus st m a s) = m"
  "authenticated (updateStatus st m a s) = (case a of None \<Rightarrow> authenticated s | Some b \<Rightarrow> b)"
  "log (updateStatus st m a s) =
     log s @ [StatusBroadcast (getStatus (updateStatus st m a s))]"
  by (auto simp: updateStatus_def emit_effect_def Let_def getStatus_def split: option.splits)

lemma updateStatus_settlements [simp]:
  "settlements h (updateStatus st m a s) = settlements h s"
  by (simp add: settlements_def)

lemma updateStatus_ok: "table_ok s \<Longrightarrow> table_ok (updateStatus st m a s)"
  by (erule table_ok_cong) simp_all

lemma run_awaiter_fields [simp]:
  "pending (run_awaiter t s) = pending s"
  "timers (run_awaiter t s) = timers s"
  "next_handle (run_awaiter t s) = next_handle s"
  "ws (run_awaiter t s) = ws s"
  "microtasks (run_awaiter t s) = microtasks s"
  "settlements h (run_awaiter t s) = settlements h s"
  by (induction t s rule: run_awaiter.induct) (simp_all add: settlements_def)

lemma fold_run_awaiter_fields [simp]:
  "pending (fold run_awaiter ts s) = pending s"
  "timers (fold run_awaiter ts s) = timers s"
  "next_handle (fold run_awaiter ts s) = next_handle s"
  "ws (fold run_awaiter ts s) = ws s"
  "microtasks (fold run_awaiter ts s) = microtasks s"
  "settlements h (fold run_awaiter ts s) = settlements h s"
  by (induction ts arbitrary: s) simp_all

lemma run_microtasks_fields [simp]:
  "pending (run_microtasks s) = pending s"
  "timers (run_microtasks s) = timers s"
  "next_handle (run_microtasks s) = next_handle s"
  "ws (run_microtasks s) = ws s"
  "microtasks (run_microtasks s) = []"
  "settlements h (run_microtasks s) = settlements h s"
  by (simp_all add: run_microtasks_def) (simp add: settlements_def)

lemma run_microtasks_ok: "table_ok s \<Longrightarrow> table_ok (run_microtasks s)"
  by (erule table_ok_cong) simp_all

lemma filter_settles_rejected:
  "distinct (map (\<lambda>(k, p). timeout p) xs) \<Longrightarrow>
   filter (settles h) (concat (map (\<lambda>(k, p). [ClearTimeout (timeout p), Reject (timeout p) msg]) xs))
     = (if h \<in> (\<lambda>(k, p). timeout p) ` set xs then [Reject h msg] else [])"
  by (induction xs) (auto simp: image_iff)

lemma rejectPendingRequests_fields [simp]:
  "next_handle (rejectPendingRequests msg s) = next_handle s"
  "ws (rejectPendingRequests msg s) = ws s"
  "timers (rejectPendingRequests msg s) h = (if h \<in> pending_handles s then None else timers s h)"
  by (simp_all add: rejectPendingRequests_fold fold_reject_other fold_reject_timers pending_handles_def)

lemma rejectPendingRequests_settlements:
  "distinct (map (\<lambda>(k, p). timeout p) (pending s)) \<Longrightarrow>
   settlements h (rejectPendingRequests msg s) =
     settlements h s @ (if h \<in> pending_handles s then [Reject h msg] else [])"
  by (simp add: settlements_def rejectPendingRequests_fold fold_reject_log
        filter_settles_rejected pending_handles_def)

lemma rejectPendingRequests_core:
  assumes "table_core s"
  shows "table_core (rejectPendingRequests msg s)"
proof -
  have d: "distinct (map (\<lambda>(k, p). timeout p) (pending s))"
    using assms by (simp add: table_core_def)
  have a: "\<And>h. h \<in> pending_handles s \<Longrightarrow> h < next_handle s \<and> settlements h s = []"
    using assms by (auto simp: table_core_def pending_handles_def)
  have b: "\<And>h. h \<notin> pending_handles s \<Longrightarrow>
          timers s h = None \<and> length (settlements h s) = (if h < next_handle s then 1 else 0)"
    using assms by (simp add: table_core_def)
  have c: "length (settlements h (rejectPendingRequests msg s)) =
             (if h < next_handle s then 1 else 0)" for h
    using a [of h] b [of h] by (cases "h \<in> pending_handles s")
      (simp_all add: rejectPendingRequests_settlements [OF d])
  show ?thesis
    unfolding table_core_def using b by (simp add: c)
qed

lemma update_fresh: "map_of al k = None \<Longrightarrow> AList.update k v al = al @ [(k, v)]"
  by (induction al) (auto split: if_splits)

lemma sendCommand_Inr:
  assumes "sendCommand who mid cmd args s = Inr (h, s')"
  shows "ws s = Some OPEN" "h = next_handle s" "next_handle s' = Suc (next_handle s)"
    "ws s' = ws s"
    "pending s' = AList.update mid \<lparr> timeout = h, awaiting = who, partialResults = [] \<rparr> (pending s)"
    "timers s' = (timers s)(h \<mapsto> \<lparr> tc_messageId = mid, tc_command = cmd, tc_awaiting = who \<rparr>)"
    "log s' = log s @ [SetTimeout h COMMAND_TIMEOUT_MS, SocketSend (command_payload cmd mid args)]"
    "microtasks s' = microtasks s" "state s' = state s" "message s' = message s"
    "authenticated s' = authenticated s" "serverInfo s' = serverInfo s" "authToken s' = authToken s"
  using assms by (auto simp: sendCommand_def Let_def emit_effect_def split: if_splits)

lemma sendCommand_ok:
  assumes ok: "table_ok s" and fresh: "map_of (pending s) mid = None"
    and send: "sendCommand who mid cmd args s = Inr (h, s')"
  shows "table_ok s'"
proof -
  note f = sendCommand_Inr [OF send]
  have core: "table_core s" using ok by (simp add: table_ok_def)
  have p: "pending s' = pending s @ [(mid, \<lparr> timeout = h, awaiting = who, partialResults = [] \<rparr>)]"
    using f(5) fresh by (simp add: update_fresh)
  have st: "settlements x s' = settlements x s" for x
    using f(7) by (simp add: settlements_def)
  have hnp: "h \<notin> pending_handles s"
    using core f(2) by (auto simp: table_core_def pending_handles_def)
  have ph: "pending_handles s' = insert h (pending_handles s)"
    by (auto simp: pending_handles_def p)
  have k: "mid \<notin> fst ` set (pending s)"
    using fresh by (simp add: map_of_eq_None_iff)
  have np: "x \<notin> pending_handles s \<Longrightarrow> timers s x = None \<and>
            length (settlements x s) = (if x < next_handle s then 1 else 0)" for x
    using core by (simp add: table_core_def)
  have h0: "settlements h s = []"
    using np [OF hnp] f(2) by simp
  have "table_core s'"
    unfolding table_core_def
  proof (intro conjI)
    show "distinct (map fst (pending s'))"
      using core k by (simp add: p table_core_def)
    show "distinct (map (\<lambda>(k, p). timeout p) (pending s'))"
      using core hnp by (simp add: p table_core_def pending_handles_def)
    show "\<forall>(k, p)\<in>set (pending s'). timeout p < next_handle s' \<and> settlements (timeout p) s' = [] \<and>
            (\<exists>tc. timers s' (timeout p) = Some tc \<and> tc_messageId tc = k \<and> tc_awaiting tc = awaiting p)"
      using core hnp h0 by (auto simp: p st f(3) f(6) f(2) table_core_def pending_handles_def)
    show "\<forall>x. x \<notin> pending_handles s' \<longrightarrow> timers s' x = None \<and>
            length (settlements x s') = (if x < next_handle s' then 1 else 0)"
      using np by (auto simp: ph st f(3) f(6) f(2))
  qed
  then show ?thesis
    using f(1) f(4) by (simp add: table_ok_def)
qed

lemma emit_effect_fields [simp]:
  "pending (emit_effect e s) = pending s"
  "timers (emit_effect e s) = timers s"
  "next_handle (emit_effect e s) = next_handle s"
  "ws (emit_effect e s) = ws s"
  "microtasks (emit_effect e s) = microtasks s"
  "log (emit_effect e s) = log s @ [e]"
  by (simp_all add: emit_effect_def)

lemma table_core_emit:
  "table_core s \<Longrightarrow> (\<And>h. \<not> settles h e) \<Longrightarrow> table_core (emit_effect e s)"
  by (erule table_core_cong) (simp_all add: settlements_def)

lemma table_core_misc:
  "table_core s \<Longrightarrow> table_core (s\<lparr> ws := w \<rparr>)"
  "table_core s \<Longrightarrow> table_core (s\<lparr> authenticated := a \<rparr>)"
  "table_core s \<Longrightarrow> table_core (s\<lparr> serverInfo := i \<rparr>)"
  "table_core s \<Longrightarrow> table_core (s\<lparr> authToken := t \<rparr>)"
  "table_core s \<Longrightarrow> table_core (s\<lparr> authenticated := a, serverInfo := i \<rparr>)"
  "table_core s \<Longrightarrow> table_core (s\<lparr> serverInfo := i, authenticated := a \<rparr>)"
  by (erule table_core_cong; simp add: settlements_def)+

lemma updateStatus_core: "table_core s \<Longrightarrow> table_core (updateStatus st m a s)"
  by (erule table_core_cong) simp_all

lemma disconnect_fields [simp]:
  "ws (disconnect r s) = None" "pending (disconnect r s) = []"
  "next_handle (disconnect r s) = next_handle s"
  by (auto simp: disconnect_def Let_def split: option.splits ReadyState.splits)

lemma disconnect_core: "table_core s \<Longrightarrow> table_core (disconnect r s)"
  unfolding disconnect_def Let_def
  by (intro updateStatus_core table_core_misc rejectPendingRequests_core)
     (auto split: option.splits ReadyState.splits intro!: table_core_emit table_core_misc)

lemma disconnect_ok: "table_core s \<Longrightarrow> table_ok (disconnect r s)"
  by (simp add: table_ok_def disconnect_core)

lemma connect_start_ok: "table_core s \<Longrightarrow> table_ok (connect_start s)"
  unfolding connect_start_def Let_def table_ok_def
  by (auto intro!: table_core_misc updateStatus_core disconnect_core)

lemma on_open_ok: "table_ok s \<Longrightarrow> table_ok (on_open s)"
  unfolding on_open_def table_ok_def
  by (auto intro!: table_core_misc updateStatus_core)

lemma on_connect_failed_ok: "table_ok s \<Longrightarrow> table_ok (on_connect_failed e s)"
  unfolding on_connect_failed_def table_ok_def
  by (auto intro!: disconnect_core updateStatus_core)

lemma on_close_fields [simp]: "pending (on_close s) = (if ws s = None then pending s else [])"
  "ws (on_close s) = None" "next_handle (on_close s) = next_handle s"
  by (auto simp: on_close_def Let_def)

lemma on_close_ok: "table_ok s \<Longrightarrow> table_ok (on_close s)"
  unfolding on_close_def table_ok_def Let_def
  by (auto intro!: table_core_misc rejectPendingRequests_core updateStatus_core)

lemma on_error_ok: "table_ok s \<Longrightarrow> table_ok (on_error e s)"
  unfolding on_error_def table_ok_def
  by (auto intro!: updateStatus_core)

lemma map_of_handle_in:
  "map_of al k = Some p \<Longrightarrow> timeout p \<in> (\<lambda>(k, p). timeout p) ` set al"
  by (force dest: map_of_SomeD)

lemma delete_handles:
  assumes "distinct (map fst al)" "distinct (map (\<lambda>(k, p). timeout p) al)" "map_of al k = Some p"
  shows "(\<lambda>(k, p). timeout p) ` set (AList.delete k al) = (\<lambda>(k, p). timeout p) ` set al - {timeout p}"
proof -
  have in_al: "(k, p) \<in> set al" using assms(3) by (rule map_of_SomeD)
  have inj: "inj_on (\<lambda>(k, p). timeout p) (set al)"
    using assms(2) by (simp add: distinct_map)
  have keys: "\<And>q. (k, q) \<in> set al \<Longrightarrow> q = p"
    using assms(1,3) by (metis map_of_is_SomeI option.inject)
  have "set (AList.delete k al) = set al - {(k, p)}"
    using keys by (auto simp: AList.delete_eq)
  moreover have "(\<lambda>(k, p). timeout p) ` (set al - {(k, p)}) =
      (\<lambda>(k, p). timeout p) ` set al - (\<lambda>(k, p). timeout p) ` {(k, p)}"
    using in_al by (intro inj_on_image_set_diff [OF inj]) auto
  ultimately show ?thesis by simp
qed

lemma delete_distinct_handles:
  "distinct (map (\<lambda>(k, p). timeout p) al) \<Longrightarrow>
   distinct (map (\<lambda>(k, p). timeout p) (AList.delete k al))"
  by (simp add: AList.delete_eq distinct_map_filter)

lemma settle_core:
  assumes core: "table_core s" and look: "map_of (pending s) k = Some p"
    and pend: "pending s' = AList.delete k (pending s)"
    and tim: "timers s' = (timers s)(timeout p := None)"
    and nh: "next_handle s' = next_handle s"
    and st: "\<And>h. settlements h s' = settlements h s @ (if h = timeout p then [e] else [])"
  shows "table_core s'"
proof -
  have dk: "distinct (map fst (pending s))" and dh: "distinct (map (\<lambda>(k, p). timeout p) (pending s))"
    using core by (simp_all add: table_core_def)
  have ph: "pending_handles s' = pending_handles s - {timeout p}"
    unfolding pending_handles_def pend by (rule delete_handles [OF dk dh look])
  have inp: "timeout p \<in> pending_handles s"
    unfolding pending_handles_def by (rule map_of_handle_in [OF look])
  have a: "\<And>k' q. (k', q) \<in> set (pending s) \<Longrightarrow> timeout q < next_handle s \<and>
      settlements (timeout q) s = [] \<and>
      (\<exists>tc. timers s (timeout q) = Some tc \<and> tc_messageId tc = k' \<and> tc_awaiting tc = awaiting q)"
    using core by (auto simp: table_core_def)
  have b: "\<And>h. h \<notin> pending_handles s \<Longrightarrow>
          timers s h = None \<and> length (settlements h s) = (if h < next_handle s then 1 else 0)"
    using core by (simp add: table_core_def)
  have sub: "set (pending s') \<subseteq> set (pending s)"
    by (auto simp: pend AList.delete_eq)
  have p_ok: "timeout p < next_handle s \<and> settlements (timeout p) s = []"
    using a [OF map_of_SomeD [OF look]] by simp
  show ?thesis
    unfolding table_core_def
  proof (intro conjI)
    show "distinct (map fst (pending s'))"
      using dk by (simp add: pend distinct_delete)
    show "distinct (map (\<lambda>(k, p). timeout p) (pending s'))"
      using dh by (simp add: pend delete_distinct_handles)
    show "\<forall>(k, q)\<in>set (pending s'). timeout q < next_handle s' \<and> settlements (timeout q) s' = [] \<and>
            (\<exists>tc. timers s' (timeout q) = Some tc \<and> tc_messageId tc = k \<and> tc_awaiting tc = awaiting q)"
    proof (clarify)
      fix k' q assume m: "(k', q) \<in> set (pending s')"
      then have "timeout q \<in> pending_handles s'" by (force simp: pending_handles_def)
      then have ne: "timeout q \<noteq> timeout p" by (simp add: ph)
      from m sub have "(k', q) \<in> set (pending s)" by auto
      from a [OF this] ne
      show "timeout q < next_handle s' \<and> settlements (timeout q) s' = [] \<and>
            (\<exists>tc. timers s' (timeout q) = Some tc \<and> tc_messageId tc = k' \<and> tc_awaiting tc = awaiting q)"
        by (simp add: nh st tim)
    qed
    show "\<forall>h. h \<notin> pending_handles s' \<longrightarrow> timers s' h = None \<and>
            length (settlements h s') = (if h < next_handle s' then 1 else 0)"
    proof (intro allI impI)
      fix h assume "h \<notin> pending_handles s'"
      then consider "h = timeout p" | "h \<noteq> timeout p" "h \<notin> pending_handles s"
        by (auto simp: ph)
      then show "timers s' h = None \<and> length (settlements h s') = (if h < next_handle s' then 1 else 0)"
      proof cases
        case 1
        then show ?thesis using p_ok by (simp add: tim st nh)
      next
        case 2
        then show ?thesis using b [of h] by (simp add: tim st nh)
      qed
    qed
  qed
qed

lemma update_same_handle:
  "map_of al k = Some p \<Longrightarrow> timeout p' = timeout p \<Longrightarrow>
   map (\<lambda>(k, p). timeout p) (AList.update k p' al) = map (\<lambda>(k, p). timeout p) al"
  by (induction al) (auto split: if_splits)

lemma update_same_keys:
  "map_of al k = Some p \<Longrightarrow> map fst (AList.update k p' al) = map fst al"
  by (induction al) (auto split: if_splits)

lemma update_set:
  "(k', q) \<in> set (AList.update k p' al) \<Longrightarrow> (k' = k \<and> q = p') \<or> (k', q) \<in> set al"
  by (induction al) (auto split: if_splits)

lemma partial_core:
  assumes core: "table_core s" and look: "map_of (pending s) k = Some p"
    and pend: "pending s' = AList.update k (p\<lparr> partialResults := r \<rparr>) (pending s)"
    and tim: "timers s' = timers s"
    and nh: "next_handle s' = next_handle s"
    and st: "\<And>h. settlements h s' = settlements h s"
  shows "table_core s'"
proof -
  have hs: "map (\<lambda>(k, p). timeout p) (pending s') = map (\<lambda>(k, p). timeout p) (pending s)"
    unfolding pend by (rule update_same_handle [OF look]) simp
  have ks: "map fst (pending s') = map fst (pending s)"
    unfolding pend by (rule update_same_keys [OF look])
  have ph: "pending_handles s' = pending_handles s"
    using arg_cong [OF hs, of set] by (simp add: pending_handles_def)
  have a: "\<And>k' q. (k', q) \<in> set (pending s) \<Longrightarrow> timeout q < next_handle s \<and>
      settlements (timeout q) s = [] \<and>
      (\<exists>tc. timers s (timeout q) = Some tc \<and> tc_messageId tc = k' \<and> tc_awaiting tc = awaiting q)"
    using core by (auto simp: table_core_def)
  have c: "timeout q < next_handle s \<and>
      settlements (timeout q) s = [] \<and>
      (\<exists>tc. timers s (timeout q) = Some tc \<and> tc_messageId tc = k' \<and> tc_awaiting tc = awaiting q)"
    if "(k', q) \<in> set (pending s')" for k' q
    using update_set [OF that [unfolded pend]] a [OF map_of_SomeD [OF look]] a [of k' q]
    by auto
  have b: "\<And>h. h \<notin> pending_handles s \<Longrightarrow>
          timers s h = None \<and> length (settlements h s) = (if h < next_handle s then 1 else 0)"
    using core by (simp add: table_core_def)
  show ?thesis
    unfolding table_core_def
  proof (intro conjI)
    show "distinct (map fst (pending s'))"
      using core by (simp add: ks table_core_def)
    show "distinct (map (\<lambda>(k, p). timeout p) (pending s'))"
      using core by (simp add: hs table_core_def)
    show "\<forall>(k, q)\<in>set (pending s'). timeout q < next_handle s' \<and> settlements (timeout q) s' = [] \<and>
            (\<exists>tc. timers s' (timeout q) = Some tc \<and> tc_messageId tc = k \<and> tc_awaiting tc = awaiting q)"
      using c by (auto simp: tim nh st)
    show "\<forall>h. h \<notin> pending_handles s' \<longrightarrow> timers s' h = None \<and>
            length (settlements h s') = (if h < next_handle s' then 1 else 0)"
      using b by (simp add: ph tim nh st)
  qed
qed

lemma call_fields [simp]:
  "pending (call_resolve h a v s) = pending s"
  "timers (call_resolve h a v s) = timers s"
  "next_handle (call_resolve h a v s) = next_handle s"
  "ws (call_resolve h a v s) = ws s"
  "log (call_resolve h a v s) = log s @ [Resolve h v]"
  "microtasks (call_resolve h a v s) = microtasks s @ [(a, Inr v)]"
  "pending (call_reject h a m s) = pending s"
  "timers (call_reject h a m s) = timers s"
  "next_handle (call_reject h a m s) = next_handle s"
  "ws (call_reject h a m s) = ws s"
  "log (call_reject h a m s) = log s @ [Reject h m]"
  "microtasks (call_reject h a m s) = microtasks s @ [(a, Inl m)]"
  "pending (clearTimeout h s) = pending s"
  "timers (clearTimeout h s) = (timers s)(h := None)"
  "next_handle (clearTimeout h s) = next_handle s"
  "ws (clearTimeout h s) = ws s"
  "log (clearTimeout h s) = log s @ [ClearTimeout h]"
  "microtasks (clearTimeout h s) = microtasks s"
  by (simp_all add: call_resolve_def call_reject_def clearTimeout_def emit_effect_def)

lemma handleResultMessage_unknown:
  "map_of (pending s) (message_id msg) = None \<Longrightarrow> handleResultMessage msg s = s"
  by (simp add: handleResultMessage_def)

lemma handleResultMessage_ws [simp]: "ws (handleResultMessage msg s) = ws s"
  by (auto simp: handleResultMessage_def Let_def split: option.splits MAResultMessage.splits json.splits)

lemma handleResultMessage_next [simp]: "next_handle (handleResultMessage msg s) = next_handle s"
  by (auto simp: handleResultMessage_def Let_def split: option.splits MAResultMessage.splits json.splits)

lemma handleResultMessage_error:
  fixes code details
  assumes "map_of (pending s) mid = Some p"
  defines "s' \<equiv> handleResultMessage (ResultError mid code details) s"
  defines "m \<equiv> (case details of Some d \<Rightarrow> if d \<noteq> [] then d else code | None \<Rightarrow> code)"
  shows "pending s' = AList.delete mid (pending s)"
    "timers s' = (timers s)(timeout p := None)"
    "log s' = log s @ [ClearTimeout (timeout p), Reject (timeout p) m]"
    "microtasks s' = microtasks s @ [(awaiting p, Inl m)]"
  using assms by (simp_all add: handleResultMessage_def Let_def)

lemma handleResultMessage_partial:
  fixes r
  assumes "map_of (pending s) mid = Some p"
  defines "s' \<equiv> handleResultMessage (ResultSuccess mid r True) s"
  shows "pending s' = (case r of Some (JArray items) \<Rightarrow>
            AList.update mid (p\<lparr> partialResults := partialResults p @ items \<rparr>) (pending s)
          | _ \<Rightarrow> pending s)"
    "timers s' = timers s" "log s' = log s" "microtasks s' = microtasks s"
  using assms by (simp_all add: handleResultMessage_def Let_def split: option.splits json.splits)

lemma handleResultMessage_final:
  fixes r
  assumes "map_of (pending s) mid = Some p"
  defines "s' \<equiv> handleResultMessage (ResultSuccess mid r False) s"
  defines "v \<equiv> (case r of
       Some (JArray items) \<Rightarrow>
         if length (partialResults p) > 0 then Some (JArray (partialResults p @ items)) else r
     | _ \<Rightarrow> r)"
  shows "pending s' = AList.delete mid (pending s)"
    "timers s' = (timers s)(timeout p := None)"
    "log s' = log s @ [ClearTimeout (timeout p), Resolve (timeout p) v]"
    "microtasks s' = microtasks s @ [(awaiting p, Inr v)]"
  using assms by (simp_all add: handleResultMessage_def Let_def split: option.splits json.splits)

lemma handleResultMessage_core:
  assumes core: "table_core s"
  shows "table_core (handleResultMessage msg s)"
proof (cases "map_of (pending s) (message_id msg)")
  case None
  then show ?thesis using core by (simp add: handleResultMessage_unknown)
next
  case (Some p)
  show ?thesis
  proof (cases msg)
    case (ResultError mid code details)
    with Some have look: "map_of (pending s) mid = Some p" by simp
    note f = handleResultMessage_error [OF look, of code details]
    show ?thesis
      unfolding ResultError
      by (rule settle_core [OF core look f(1) f(2), where e = "Reject (timeout p)
            (case details of Some d \<Rightarrow> if d \<noteq> [] then d else code | None \<Rightarrow> code)"])
         (simp_all add: settlements_def f(3))
  next
    case (ResultSuccess mid r partial)
    with Some have look: "map_of (pending s) mid = Some p" by simp
    show ?thesis
    proof (cases partial)
      case False
      with ResultSuccess have msg: "msg = ResultSuccess mid r False" by simp
      note f = handleResultMessage_final [OF look, of r]
      show ?thesis
        unfolding msg
        by (rule settle_core [OF core look f(1) f(2),
              where e = "Resolve (timeout p) (case r of
                 Some (JArray items) \<Rightarrow>
                   if length (partialResults p) > 0
                   then Some (JArray (partialResults p @ items)) else r
               | _ \<Rightarrow> r)"])
           (simp_all add: settlements_def f(3))
    next
      case True
      with ResultSuccess have msg: "msg = ResultSuccess mid r True" by simp
      note f = handleResultMessage_partial [OF look, of r]
      show ?thesis
      proof (cases "\<exists>items. r = Some (JArray items)")
        case True
        then obtain items where r: "r = Some (JArray items)" by blast
        note g = handleResultMessage_partial [OF look, of "Some (JArray items)"]
        show ?thesis
          unfolding msg r
          by (rule partial_core [OF core look _ g(2), where r = "partialResults p @ items"])
             (simp_all add: g settlements_def)
      next
        case False
        then have "pending (handleResultMessage (ResultSuccess mid r True) s) = pending s"
          by (simp add: f(1) split: option.splits json.splits)
        then show ?thesis
          unfolding msg
          by (intro table_core_cong [OF core]) (simp_all add: f settlements_def)
      qed
    qed
  qed
qed

lemma timer_fires_core:
  assumes core: "table_core s"
  shows "table_core (timer_fires h s)"
proof (cases "timers s h")
  case None
  then show ?thesis using core by (simp add: timer_fires_def)
next
  case (Some tc)
  have "h \<in> pending_handles s"
    using core Some by (auto simp: table_core_def)
  then obtain k p where kp: "(k, p) \<in> set (pending s)" and h: "timeout p = h"
    by (auto simp: pending_handles_def)
  have "tc_messageId tc = k \<and> tc_awaiting tc = awaiting p"
    using core kp h Some by (auto simp: table_core_def)
  moreover have look: "map_of (pending s) k = Some p"
    using core kp by (simp add: table_core_def)
  ultimately show ?thesis
    using Some h
    by (intro settle_core [OF core look, where e = "Reject h (''Music Assistant command timeout: '' @ tc_command tc)"])
       (simp_all add: timer_fires_def Let_def settlements_def)
qed

lemma timer_fires_ws [simp]: "ws (timer_fires h s) = ws s"
  by (simp add: timer_fires_def Let_def split: option.splits)

lemma handleResultMessage_ok: "table_ok s \<Longrightarrow> table_ok (handleResultMessage msg s)"
  by (auto simp: table_ok_def handleResultMessage_core handleResultMessage_unknown)

lemma timer_fires_empty: "pending s = [] \<Longrightarrow> pending (timer_fires h s) = []"
  by (simp add: timer_fires_def Let_def split: option.splits)

lemma timer_fires_ok: "table_ok s \<Longrightarrow> table_ok (timer_fires h s)"
  by (auto simp: table_ok_def timer_fires_core timer_fires_empty)

lemma authenticateWithToken_ok:
  assumes ok: "table_ok s" and fresh: "map_of (pending s) mid = None"
    and a: "authenticateWithToken who mid token s = Inr s'"
  shows "table_ok s'"
proof -
  let ?s1 = "updateStatus Authenticating (''Authenticating with Music Assistant'' @ ellipsis) (Some False) s"
  from a obtain h where send: "sendCommand who mid ''auth'' (Some [(''token'', JString (trim token))]) ?s1 = Inr (h, s')"
    by (auto simp: authenticateWithToken_def Let_def split: if_splits sum.splits)
  have "table_ok ?s1" using ok by (rule updateStatus_ok)
  then show ?thesis
    by (rule sendCommand_ok [OF _ _ send]) (simp add: fresh)
qed

lemma handleServerInfo_ok:
  assumes ok: "table_ok s" and fresh: "map_of (pending s) mid = None"
  shows "table_ok (handleServerInfo mid info s)"
proof -
  have s1: "table_ok (s\<lparr> serverInfo := Some info \<rparr>)"
    using ok by (rule table_ok_cong) (simp_all add: settlements_def)
  show ?thesis
    unfolding handleServerInfo_def Let_def
    using s1 fresh
    by (auto split: sum.splits intro!: updateStatus_ok
             intro: authenticateWithToken_ok [where s = "s\<lparr> serverInfo := Some info \<rparr>"])
qed

lemma handleMessage_ok:
  assumes ok: "table_ok s" and fresh: "map_of (pending s) mid = None"
  shows "table_ok (handleMessage P mid raw s)"
  unfolding handleMessage_def
  using ok fresh
  by (auto split: option.splits intro!: handleServerInfo_ok handleResultMessage_ok
           intro: table_ok_cong [where s = s] simp: settlements_def)

lemma handle_event_ok:
  assumes ok: "table_ok s" and fresh: "id_fresh e s"
  shows "table_ok (handle_event P e s)"
proof -
  have core: "table_core s" using ok by (simp add: table_ok_def)
  show ?thesis
  proof (cases e)
    case EvConnect
    then show ?thesis using core by (simp add: connect_start_ok)
  next
    case EvSocketOpen
    then show ?thesis using ok by (simp add: on_open_ok)
  next
    case (EvConnectFailed x)
    then show ?thesis using ok by (simp add: on_connect_failed_ok)
  next
    case EvSocketClosing
    then show ?thesis using ok core by (auto simp: table_ok_def intro: table_core_misc)
  next
    case EvSocketClose
    then show ?thesis using ok by (simp add: on_close_ok)
  next
    case (EvSocketError x)
    then show ?thesis using ok by (simp add: on_error_ok)
  next
    case (EvMessage mid raw)
    then show ?thesis using ok fresh
      by (simp add: on_message_def id_fresh_def handleMessage_ok)
  next
    case (EvTimer h)
    then show ?thesis using ok by (simp add: timer_fires_ok)
  next
    case (EvDisconnect r)
    then show ?thesis using core by (simp add: disconnect_ok)
  next
    case (EvSetAuthToken t)
    then show ?thesis using ok by (auto intro: table_ok_cong simp: settlements_def)
  next
    case (EvSendCommand mid cmd args)
    then show ?thesis using ok fresh
      by (auto simp: id_fresh_def split: sum.splits intro: sendCommand_ok)
  next
    case (EvAuthenticate mid tok)
    then show ?thesis using ok fresh
      by (auto simp: id_fresh_def split: sum.splits intro: authenticateWithToken_ok)
  qed
qed

lemma step_ok: "table_ok s \<Longrightarrow> id_fresh e s \<Longrightarrow> table_ok (step P e s)"
  unfolding step_def by (intro run_microtasks_ok handle_event_ok)

lemma run_ok: "table_ok s \<Longrightarrow> ids_fresh P es s \<Longrightarrow> table_ok (run P es s)"
  by (induction es arbitrary: s) (auto intro: step_ok)

lemma new_client_ok: "table_ok new_client"
  by (simp add: table_ok_def table_core_def new_client_def pending_handles_def settlements_def)

lemmas client_defs = step_def run_microtasks_def connect_start_def disconnect_def
  rejectPendingRequests_def reject_one_def updateStatus_def emit_effect_def getStatus_def
  on_open_def sendCommand_def new_client_def Let_def id_fresh_def COMMAND_TIMEOUT_MS_def
  command_payload_def call_reject_def call_resolve_def clearTimeout_def

lemma table_ok_at_most_one:
  assumes "table_ok s"
  shows "length (settlements h s) \<le> 1"
proof (cases "h \<in> pending_handles s")
  case True
  then have "settlements h s = []"
    using assms by (auto simp: table_ok_def table_core_def pending_handles_def)
  then show ?thesis by simp
next
  case False
  then have "length (settlements h s) = (if h < next_handle s then 1 else 0)"
    using assms by (simp add: table_ok_def table_core_def)
  then show ?thesis by simp
qed

lemma table_ok_pending:
  assumes "table_ok s" "map_of (pending s) mid = Some p"
  shows "settlements (timeout p) s = []" "timeout p < next_handle s"
    "timeout p \<in> pending_handles s"
    "\<exists>tc. timers s (timeout p) = Some tc \<and> tc_messageId tc = mid \<and> tc_awaiting tc = awaiting p"
  using assms map_of_SomeD [OF assms(2)]
  by (auto simp: table_ok_def table_core_def pending_handles_def)

lemma table_ok_empty_all_settled:
  assumes "table_ok s" "pending s = []" "h < next_handle s"
  shows "length (settlements h s) = 1"
  using assms by (simp add: table_ok_def table_core_def pending_handles_def)

lemma table_ok_distinct_handles:
  "table_ok s \<Longrightarrow> distinct (map (\<lambda>(k, p). timeout p) (pending s))"
  by (simp add: table_ok_def table_core_def)

lemma delete_map_of_None: "map_of (AList.delete k al) k = None"
  by (simp add: delete_conv')

section \<open>C1: every pending request is settled exactly once\<close>

text \<open>
  C1. Along every run of the client from its initial state in which no message id is
  reused while in flight: no request ever has more than one call of its
  \<^verbatim>\<open>resolve\<close>/\<^verbatim>\<open>reject\<close>; a request still in the table has none and its timer is
  armed; a request no longer in the table has exactly one and no timer. Nothing is
  pending without a socket, and once the socket closes (or \<^verbatim>\<open>disconnect\<close> runs) the
  table is empty and every request ever created has exactly one settlement. For a
  request in the table: a partial result does not settle it; the first non-partial
  success result resolves it, an error result rejects it, its timer firing rejects it
  with the command-timeout message, and a teardown rejects it with the teardown reason;
  each of these removes the entry and leaves its timer disarmed.
\<close>

theorem pending_request_settled_exactly_once:
  assumes fresh: "ids_fresh P es new_client"
  shows
    "(let s = run P es new_client in
      (\<forall>h. length (settlements h s) \<le> 1) \<and>
      (\<forall>h. h < next_handle s \<longrightarrow>
           (if h \<in> pending_handles s
            then settlements h s = [] \<and> timers s h \<noteq> None
            else length (settlements h s) = 1 \<and> timers s h = None)) \<and>
      (ws s = None \<longrightarrow> pending s = []) \<and>
      (pending (step P EvSocketClose s) = [] \<and>
       (\<forall>h. h < next_handle s \<longrightarrow> length (settlements h (step P EvSocketClose s)) = 1)) \<and>
      (\<forall>reason. pending (step P (EvDisconnect reason) s) = [] \<and>
       (\<forall>h. h < next_handle s \<longrightarrow>
            length (settlements h (step P (EvDisconnect reason) s)) = 1)) \<and>
      (\<forall>mid p. map_of (pending s) mid = Some p \<longrightarrow>
         (\<forall>r. let s' = handleResultMessage (ResultSuccess mid r True) s in
                settlements (timeout p) s' = [] \<and> map_of (pending s') mid \<noteq> None \<and>
                timers s' (timeout p) \<noteq> None) \<and>
         (\<forall>r. let s' = handleResultMessage (ResultSuccess mid r False) s in
                (\<exists>v. settlements (timeout p) s' = [Resolve (timeout p) v]) \<and>
                map_of (pending s') mid = None \<and> timers s' (timeout p) = None) \<and>
         (\<forall>code details. let s' = handleResultMessage (ResultError mid code details) s in
                (\<exists>m. settlements (timeout p) s' = [Reject (timeout p) m]) \<and>
                map_of (pending s') mid = None \<and> timers s' (timeout p) = None) \<and>
         (let s' = timer_fires (timeout p) s in
                (\<exists>command. settlements (timeout p) s' =
                   [Reject (timeout p) (''Music Assistant command timeout: '' @ command)]) \<and>
                map_of (pending s') mid = None \<and> timers s' (timeout p) = None) \<and>
         (\<forall>reason. let s' = rejectPendingRequests reason s in
                settlements (timeout p) s' = [Reject (timeout p) reason] \<and>
                map_of (pending s') mid = None \<and> timers s' (timeout p) = None)))"
proof -
  define s where "s = run P es new_client"
  have ok: "table_ok s"
    unfolding s_def by (rule run_ok [OF new_client_ok fresh])
  have core: "table_core s" using ok by (simp add: table_ok_def)
  have c1: "\<forall>h. length (settlements h s) \<le> 1"
    using table_ok_at_most_one [OF ok] by simp
  have c2: "\<forall>h. h < next_handle s \<longrightarrow>
           (if h \<in> pending_handles s
            then settlements h s = [] \<and> timers s h \<noteq> None
            else length (settlements h s) = 1 \<and> timers s h = None)"
    using core by (auto simp: table_core_def pending_handles_def)
  have c3: "ws s = None \<longrightarrow> pending s = []"
    using ok by (simp add: table_ok_def)
  have close_ok: "table_ok (step P EvSocketClose s)"
    by (rule step_ok [OF ok]) (simp add: id_fresh_def)
  have close_empty: "pending (step P EvSocketClose s) = []"
    using c3 by (simp add: step_def)
  have c4: "pending (step P EvSocketClose s) = [] \<and>
       (\<forall>h. h < next_handle s \<longrightarrow> length (settlements h (step P EvSocketClose s)) = 1)"
    using table_ok_empty_all_settled [OF close_ok close_empty] close_empty
    by (simp add: step_def)
  have c5: "\<forall>reason. pending (step P (EvDisconnect reason) s) = [] \<and>
       (\<forall>h. h < next_handle s \<longrightarrow>
            length (settlements h (step P (EvDisconnect reason) s)) = 1)"
  proof
    fix reason
    have d_ok: "table_ok (step P (EvDisconnect reason) s)"
      by (rule step_ok [OF ok]) (simp add: id_fresh_def)
    have d_empty: "pending (step P (EvDisconnect reason) s) = []"
      by (simp add: step_def)
    show "pending (step P (EvDisconnect reason) s) = [] \<and>
       (\<forall>h. h < next_handle s \<longrightarrow>
            length (settlements h (step P (EvDisconnect reason) s)) = 1)"
      using table_ok_empty_all_settled [OF d_ok d_empty] d_empty
      by (simp add: step_def)
  qed
  have c6: "\<forall>mid p. map_of (pending s) mid = Some p \<longrightarrow>
         (\<forall>r. let s' = handleResultMessage (ResultSuccess mid r True) s in
                settlements (timeout p) s' = [] \<and> map_of (pending s') mid \<noteq> None \<and>
                timers s' (timeout p) \<noteq> None) \<and>
         (\<forall>r. let s' = handleResultMessage (ResultSuccess mid r False) s in
                (\<exists>v. settlements (timeout p) s' = [Resolve (timeout p) v]) \<and>
                map_of (pending s') mid = None \<and> timers s' (timeout p) = None) \<and>
         (\<forall>code details. let s' = handleResultMessage (ResultError mid code details) s in
                (\<exists>m. settlements (timeout p) s' = [Reject (timeout p) m]) \<and>
                map_of (pending s') mid = None \<and> timers s' (timeout p) = None) \<and>
         (let s' = timer_fires (timeout p) s in
                (\<exists>command. settlements (timeout p) s' =
                   [Reject (timeout p) (''Music Assistant command timeout: '' @ command)]) \<and>
                map_of (pending s') mid = None \<and> timers s' (timeout p) = None) \<and>
         (\<forall>reason. let s' = rejectPendingRequests reason s in
                settlements (timeout p) s' = [Reject (timeout p) reason] \<and>
                map_of (pending s') mid = None \<and> timers s' (timeout p) = None)"
  proof (intro allI impI)
    fix mid p assume look: "map_of (pending s) mid = Some p"
    note t = table_ok_pending [OF ok look]
    from t(4) obtain tc where tc: "timers s (timeout p) = Some tc" "tc_messageId tc = mid"
      by blast
    have p1: "\<forall>r. let s' = handleResultMessage (ResultSuccess mid r True) s in
                settlements (timeout p) s' = [] \<and> map_of (pending s') mid \<noteq> None \<and>
                timers s' (timeout p) \<noteq> None"
      using t(1) tc(1) look
      by (auto simp: Let_def handleResultMessage_partial [OF look] settlements_def update_conv'
               split: option.splits json.splits)
    have p2: "\<forall>r. let s' = handleResultMessage (ResultSuccess mid r False) s in
                (\<exists>v. settlements (timeout p) s' = [Resolve (timeout p) v]) \<and>
                map_of (pending s') mid = None \<and> timers s' (timeout p) = None"
      using t(1)
      by (simp add: Let_def handleResultMessage_final [OF look] settlements_def delete_map_of_None)
    have p3: "\<forall>code details. let s' = handleResultMessage (ResultError mid code details) s in
                (\<exists>m. settlements (timeout p) s' = [Reject (timeout p) m]) \<and>
                map_of (pending s') mid = None \<and> timers s' (timeout p) = None"
      using t(1)
      by (simp add: Let_def handleResultMessage_error [OF look] settlements_def delete_map_of_None)
    have p4: "let s' = timer_fires (timeout p) s in
                (\<exists>command. settlements (timeout p) s' =
                   [Reject (timeout p) (''Music Assistant command timeout: '' @ command)]) \<and>
                map_of (pending s') mid = None \<and> timers s' (timeout p) = None"
      using t(1) tc
      by (simp add: Let_def timer_fires_def settlements_def delete_map_of_None)
    have p5: "\<forall>reason. let s' = rejectPendingRequests reason s in
                settlements (timeout p) s' = [Reject (timeout p) reason] \<and>
                map_of (pending s') mid = None \<and> timers s' (timeout p) = None"
      using t(1) t(3)
      by (simp add: Let_def rejectPendingRequests_settlements [OF table_ok_distinct_handles [OF ok]])
    show "(\<forall>r. let s' = handleResultMessage (ResultSuccess mid r True) s in
                settlements (timeout p) s' = [] \<and> map_of (pending s') mid \<noteq> None \<and>
                timers s' (timeout p) \<noteq> None) \<and>
         (\<forall>r. let s' = handleResultMessage (ResultSuccess mid r False) s in
                (\<exists>v. settlements (timeout p) s' = [Resolve (timeout p) v]) \<and>
                map_of (pending s') mid = None \<and> timers s' (timeout p) = None) \<and>
         (\<forall>code details. let s' = handleResultMessage (ResultError mid code details) s in
                (\<exists>m. settlements (timeout p) s' = [Reject (timeout p) m]) \<and>
                map_of (pending s') mid = None \<and> timers s' (timeout p) = None) \<and>
         (let s' = timer_fires (timeout p) s in
                (\<exists>command. settlements (timeout p) s' =
                   [Reject (timeout p) (''Music Assistant command timeout: '' @ command)]) \<and>
                map_of (pending s') mid = None \<and> timers s' (timeout p) = None) \<and>
         (\<forall>reason. let s' = rejectPendingRequests reason s in
                settlements (timeout p) s' = [Reject (timeout p) reason] \<and>
                map_of (pending s') mid = None \<and> timers s' (timeout p) = None)"
      using p1 p2 p3 p4 p5 by blast
  qed
  show ?thesis
    unfolding Let_def s_def [symmetric]
    using c1 c2 c3 c4 c5 c6 [unfolded Let_def] by blast
qed

text \<open>
  The run connect, open, \<^verbatim>\<open>sendCommand('players/all')\<close> with message id \<open>u1\<close>: the
  request is pending with no settlement, and a teardown rejects it once.
\<close>

theorem pending_request_settled_exactly_once_witness:
  "ids_fresh (\<lambda>raw. None) [EvConnect, EvSocketOpen, EvSendCommand ''u1'' ''players/all'' None] new_client \<and>
   map_of (pending (run (\<lambda>raw. None)
       [EvConnect, EvSocketOpen, EvSendCommand ''u1'' ''players/all'' None] new_client)) ''u1''
     = Some \<lparr> timeout = 0, awaiting = Caller, partialResults = [] \<rparr> \<and>
   0 < next_handle (run (\<lambda>raw. None)
       [EvConnect, EvSocketOpen, EvSendCommand ''u1'' ''players/all'' None] new_client) \<and>
   0 \<in> pending_handles (run (\<lambda>raw. None)
       [EvConnect, EvSocketOpen, EvSendCommand ''u1'' ''players/all'' None] new_client) \<and>
   settlements 0 (run (\<lambda>raw. None)
       [EvConnect, EvSocketOpen, EvSendCommand ''u1'' ''players/all'' None] new_client) = [] \<and>
   settlements 0 (rejectPendingRequests ''Socket closed.'' (run (\<lambda>raw. None)
       [EvConnect, EvSocketOpen, EvSendCommand ''u1'' ''players/all'' None] new_client))
     = [Reject 0 ''Socket closed.'']"
proof -
  let ?es = "[EvConnect, EvSocketOpen, EvSendCommand ''u1'' ''players/all'' None]"
  let ?s = "run (\<lambda>raw. None) ?es new_client"
  have f: "ids_fresh (\<lambda>raw. None) ?es new_client"
    by (simp add: client_defs)
  have p: "map_of (pending ?s) ''u1'' = Some \<lparr> timeout = 0, awaiting = Caller, partialResults = [] \<rparr>"
    by (simp add: client_defs)
  have n: "0 < next_handle ?s"
    by (simp add: client_defs)
  have m: "0 \<in> pending_handles ?s"
    by (simp add: client_defs pending_handles_def)
  note t = pending_request_settled_exactly_once [OF f, unfolded Let_def]
  have a: "settlements 0 ?s = []"
    using t [THEN conjunct2, THEN conjunct1, rule_format, of 0] n m by simp
  have b: "settlements 0 (rejectPendingRequests ''Socket closed.'' ?s) = [Reject 0 ''Socket closed.'']"
    using t [THEN conjunct2, THEN conjunct2, THEN conjunct2, THEN conjunct2, THEN conjunct2,
             rule_format, OF p, THEN conjunct2, THEN conjunct2, THEN conjunct2, THEN conjunct2,
             rule_format, of "''Socket closed.''"]
    by simp
  show ?thesis using f p n m a b by (intro conjI)
qed

section \<open>C2: partial results accumulate in arrival order\<close>

lemma open_client_fields:
  "ws open_client = Some OPEN" "pending open_client = []" "next_handle open_client = 0"
  "authToken open_client = []" "state open_client = Connected" "microtasks open_client = []"
  by (simp_all add: open_client_def client_defs)

lemma one_request_fields:
  "ws one_request = Some OPEN"
  "pending one_request = [(''u1'', \<lparr> timeout = 0, awaiting = Caller, partialResults = [] \<rparr>)]"
  "next_handle one_request = Suc 0"
  "log one_request = log open_client @ [SetTimeout 0 12000,
      SocketSend (JObject [(''command'', JString ''players/all''), (''message_id'', JString ''u1'')])]"
  by (simp_all add: one_request_def client_defs open_client_fields)

lemma partial_frames:
  assumes "map_of (pending s) mid = Some p"
  shows "map_of (pending (fold (\<lambda>items. handleResultMessage (ResultSuccess mid (Some (JArray items)) True)) parts s)) mid
           = Some (p\<lparr> partialResults := partialResults p @ concat parts \<rparr>) \<and>
         log (fold (\<lambda>items. handleResultMessage (ResultSuccess mid (Some (JArray items)) True)) parts s) = log s \<and>
         timers (fold (\<lambda>items. handleResultMessage (ResultSuccess mid (Some (JArray items)) True)) parts s) = timers s"
  using assms
proof (induction parts arbitrary: s p)
  case Nil
  then show ?case by simp
next
  case (Cons items parts)
  let ?s1 = "handleResultMessage (ResultSuccess mid (Some (JArray items)) True) s"
  note f = handleResultMessage_partial [OF Cons.prems, of "Some (JArray items)"]
  have look1: "map_of (pending ?s1) mid = Some (p\<lparr> partialResults := partialResults p @ items \<rparr>)"
    by (simp add: f(1) update_conv')
  show ?case
    using Cons.IH [OF look1] by (simp add: f)
qed

text \<open>
  C2, as amended. For a request in the table: a partial result never settles it (the log
  and the timers stay as they are); the items of a partial result whose payload is an
  array are appended to the accumulator, and a partial result with any other payload
  appends nothing. After any sequence of partial array results, the first non-partial
  result removes the entry and resolves the request: with the accumulator followed by
  the items of the final payload when the accumulator is not empty and the final payload
  is an array, and with the final payload alone otherwise. For a new request the frames
  \<open>[a, b]\<close>, \<open>[c]\<close> (partial) and \<open>[d]\<close> (final) resolve it with \<open>[a, b, c, d]\<close>.
\<close>

theorem partial_results_accumulate_in_order:
  assumes "map_of (pending s) mid = Some p"
  shows
    "(\<forall>r. let s' = handleResultMessage (ResultSuccess mid r True) s in
           log s' = log s \<and> timers s' = timers s \<and>
           map_of (pending s') mid =
             Some (p\<lparr> partialResults := partialResults p @
                          (case r of Some (JArray items) \<Rightarrow> items | _ \<Rightarrow> []) \<rparr>)) \<and>
     (\<forall>parts r.
        let s' = fold (\<lambda>items. handleResultMessage (ResultSuccess mid (Some (JArray items)) True))
                      parts s;
            s'' = handleResultMessage (ResultSuccess mid r False) s';
            acc = partialResults p @ concat parts
        in log s' = log s \<and>
           map_of (pending s'') mid = None \<and>
           log s'' = log s @ [ClearTimeout (timeout p), Resolve (timeout p)
                       (case r of
                          Some (JArray items) \<Rightarrow>
                            if acc \<noteq> [] then Some (JArray (acc @ items)) else r
                        | _ \<Rightarrow> r)]) \<and>
     (\<forall>a b c d.
        partialResults p = [] \<longrightarrow>
        log (handleResultMessage (ResultSuccess mid (Some (JArray [d])) False)
              (handleResultMessage (ResultSuccess mid (Some (JArray [c])) True)
                (handleResultMessage (ResultSuccess mid (Some (JArray [a, b])) True) s)))
          = log s @ [ClearTimeout (timeout p), Resolve (timeout p) (Some (JArray [a, b, c, d]))])"
proof (intro conjI allI)
  fix r
  note f = handleResultMessage_partial [OF assms, of r]
  show "let s' = handleResultMessage (ResultSuccess mid r True) s in
           log s' = log s \<and> timers s' = timers s \<and>
           map_of (pending s') mid =
             Some (p\<lparr> partialResults := partialResults p @
                          (case r of Some (JArray items) \<Rightarrow> items | _ \<Rightarrow> []) \<rparr>)"
    using assms by (simp add: Let_def f update_conv' split: option.splits json.splits)
next
  fix parts r
  let ?s' = "fold (\<lambda>items. handleResultMessage (ResultSuccess mid (Some (JArray items)) True)) parts s"
  note g = partial_frames [OF assms, of parts]
  note f = handleResultMessage_final [OF g [THEN conjunct1], of r]
  show "let s' = ?s'; s'' = handleResultMessage (ResultSuccess mid r False) s';
            acc = partialResults p @ concat parts
        in log s' = log s \<and>
           map_of (pending s'') mid = None \<and>
           log s'' = log s @ [ClearTimeout (timeout p), Resolve (timeout p)
                       (case r of
                          Some (JArray items) \<Rightarrow>
                            if acc \<noteq> [] then Some (JArray (acc @ items)) else r
                        | _ \<Rightarrow> r)]"
    using g by (simp add: Let_def f delete_map_of_None split: option.splits json.splits)
next
  fix a b c d
  let ?s' = "fold (\<lambda>items. handleResultMessage (ResultSuccess mid (Some (JArray items)) True)) [[a, b], [c]] s"
  note g = partial_frames [OF assms, of "[[a, b], [c]]"]
  note f = handleResultMessage_final [OF g [THEN conjunct1], of "Some (JArray [d])"]
  show "partialResults p = [] \<longrightarrow>
        log (handleResultMessage (ResultSuccess mid (Some (JArray [d])) False)
              (handleResultMessage (ResultSuccess mid (Some (JArray [c])) True)
                (handleResultMessage (ResultSuccess mid (Some (JArray [a, b])) True) s)))
          = log s @ [ClearTimeout (timeout p), Resolve (timeout p) (Some (JArray [a, b, c, d]))]"
    using g f(3) by simp
qed

text \<open>The request \<open>u1\<close> of \<open>one_request\<close>, with the three frames of the example.\<close>

theorem partial_results_accumulate_in_order_witness:
  "map_of (pending one_request) ''u1'' = Some \<lparr> timeout = 0, awaiting = Caller, partialResults = [] \<rparr> \<and>
   log (handleResultMessage (ResultSuccess ''u1'' (Some (JArray [JString ''d''])) False)
         (handleResultMessage (ResultSuccess ''u1'' (Some (JArray [JString ''c''])) True)
           (handleResultMessage (ResultSuccess ''u1'' (Some (JArray [JString ''a'', JString ''b''])) True)
              one_request)))
     = log one_request @ [ClearTimeout 0,
         Resolve 0 (Some (JArray [JString ''a'', JString ''b'', JString ''c'', JString ''d'']))]"
proof -
  have look: "map_of (pending one_request) ''u1''
                = Some \<lparr> timeout = 0, awaiting = Caller, partialResults = [] \<rparr>"
    by (simp add: one_request_fields)
  show ?thesis
    using look partial_results_accumulate_in_order [OF look, THEN conjunct2, THEN conjunct2,
            rule_format, where a = "JString ''a''" and b = "JString ''b''"
              and c = "JString ''c''" and d = "JString ''d''"]
    by simp
qed

text \<open>
  C2 as stated fails: with \<open>[a]\<close> accumulated, a final result whose payload is the string
  \<open>x\<close> resolves the request with \<open>x\<close> alone.
\<close>

theorem final_non_array_drops_accumulator:
  "map_of (pending (handleResultMessage (ResultSuccess ''u1'' (Some (JArray [JString ''a''])) True)
                      one_request)) ''u1''
     = Some \<lparr> timeout = 0, awaiting = Caller, partialResults = [JString ''a''] \<rparr> \<and>
   settlements 0 (handleResultMessage (ResultSuccess ''u1'' (Some (JString ''x'')) False)
                   (handleResultMessage (ResultSuccess ''u1'' (Some (JArray [JString ''a''])) True)
                      one_request))
     = [Resolve 0 (Some (JString ''x''))]"
  by (simp add: handleResultMessage_def one_request_fields settlements_def client_defs
        open_client_def)

section \<open>C9: payloads that are not arrays\<close>

text \<open>
  C9. For a request in the table and a payload that is not an array: as a partial result
  it changes nothing at all, so it contributes nothing to the accumulator; as the final
  result it resolves the request with that payload alone, whatever has been accumulated,
  and the entry (with its accumulator) is removed.
\<close>

theorem non_array_payloads:
  assumes "map_of (pending s) mid = Some p" "\<And>items. r \<noteq> Some (JArray items)"
  shows "handleResultMessage (ResultSuccess mid r True) s = s \<and>
         log (handleResultMessage (ResultSuccess mid r False) s)
           = log s @ [ClearTimeout (timeout p), Resolve (timeout p) r] \<and>
         microtasks (handleResultMessage (ResultSuccess mid r False) s)
           = microtasks s @ [(awaiting p, Inr r)] \<and>
         pending (handleResultMessage (ResultSuccess mid r False) s) = AList.delete mid (pending s)"
proof -
  note f = handleResultMessage_final [OF assms(1), of r]
  have v: "(case r of Some (JArray items) \<Rightarrow>
              if length (partialResults p) > 0 then Some (JArray (partialResults p @ items)) else r
            | _ \<Rightarrow> r) = r"
    using assms(2) by (auto split: option.splits json.splits)
  have "handleResultMessage (ResultSuccess mid r True) s = s"
    using assms by (auto simp: handleResultMessage_def split: option.splits json.splits)
  then show ?thesis using f v by simp
qed

text \<open>The same request with \<open>[a]\<close> accumulated, and an object as payload.\<close>

theorem non_array_payloads_witness:
  "map_of (pending (handleResultMessage (ResultSuccess ''u1'' (Some (JArray [JString ''a''])) True)
                      one_request)) ''u1''
     = Some \<lparr> timeout = 0, awaiting = Caller, partialResults = [JString ''a''] \<rparr> \<and>
   handleResultMessage (ResultSuccess ''u1'' (Some (JObject [])) True)
     (handleResultMessage (ResultSuccess ''u1'' (Some (JArray [JString ''a''])) True) one_request)
     = handleResultMessage (ResultSuccess ''u1'' (Some (JArray [JString ''a''])) True) one_request \<and>
   microtasks (handleResultMessage (ResultSuccess ''u1'' (Some (JObject [])) False)
     (handleResultMessage (ResultSuccess ''u1'' (Some (JArray [JString ''a''])) True) one_request))
     = microtasks (handleResultMessage (ResultSuccess ''u1'' (Some (JArray [JString ''a''])) True)
                     one_request) @ [(Caller, Inr (Some (JObject [])))]"
proof -
  let ?s = "handleResultMessage (ResultSuccess ''u1'' (Some (JArray [JString ''a''])) True) one_request"
  have look: "map_of (pending ?s) ''u1''
                = Some \<lparr> timeout = 0, awaiting = Caller, partialResults = [JString ''a''] \<rparr>"
    by (simp add: handleResultMessage_def one_request_fields)
  have na: "\<And>items. Some (JObject []) \<noteq> Some (JArray items)" by simp
  show ?thesis
    using look non_array_payloads [OF look na] by simp
qed

section \<open>C3: the handshake after server-info\<close>

text \<open>
  C3. When the server-info reports a schema version below 28, \<^verbatim>\<open>handleServerInfo\<close>
  leaves the client in state \<open>Authenticated\<close> with \<open>authenticated\<close> set, and does
  nothing but broadcast that status: no command is sent, no request is registered. When
  it reports 28 or more and no token is configured, the client is in state \<open>Connected\<close>,
  its status snapshot has \<open>authRequired\<close> true and \<open>authenticated\<close> false, and again
  nothing is sent.
\<close>

theorem server_info_handshake:
  "(schema_version info < 28 \<longrightarrow>
      state (handleServerInfo mid info s) = Authenticated \<and>
      authenticated (handleServerInfo mid info s) \<and>
      snap_authenticated (getStatus (handleServerInfo mid info s)) \<and>
      \<not> snap_authRequired (getStatus (handleServerInfo mid info s)) \<and>
      pending (handleServerInfo mid info s) = pending s \<and>
      timers (handleServerInfo mid info s) = timers s \<and>
      microtasks (handleServerInfo mid info s) = microtasks s \<and>
      log (handleServerInfo mid info s)
        = log s @ [StatusBroadcast (getStatus (handleServerInfo mid info s))]) \<and>
   (schema_version info \<ge> 28 \<and> authToken s = [] \<longrightarrow>
      state (handleServerInfo mid info s) = Connected \<and>
      \<not> authenticated (handleServerInfo mid info s) \<and>
      snap_state (getStatus (handleServerInfo mid info s)) = Connected \<and>
      snap_authRequired (getStatus (handleServerInfo mid info s)) \<and>
      \<not> snap_authenticated (getStatus (handleServerInfo mid info s)) \<and>
      pending (handleServerInfo mid info s) = pending s \<and>
      timers (handleServerInfo mid info s) = timers s \<and>
      microtasks (handleServerInfo mid info s) = microtasks s \<and>
      log (handleServerInfo mid info s)
        = log s @ [StatusBroadcast (getStatus (handleServerInfo mid info s))])"
  by (simp add: handleServerInfo_def Let_def getStatus_def)

text \<open>Schema versions 27 and 28 on the freshly opened client, which has no token.\<close>

theorem server_info_handshake_witness:
  "schema_version \<lparr> server_id = ''srv'', server_version = ''2.0'', schema_version = 27,
       min_supported_schema_version = None \<rparr> < 28 \<and>
   state (handleServerInfo ''u1'' \<lparr> server_id = ''srv'', server_version = ''2.0'',
       schema_version = 27, min_supported_schema_version = None \<rparr> open_client) = Authenticated \<and>
   pending (handleServerInfo ''u1'' \<lparr> server_id = ''srv'', server_version = ''2.0'',
       schema_version = 27, min_supported_schema_version = None \<rparr> open_client) = [] \<and>
   schema_version \<lparr> server_id = ''srv'', server_version = ''2.0'', schema_version = 28,
       min_supported_schema_version = None \<rparr> \<ge> 28 \<and>
   authToken open_client = [] \<and>
   state (handleServerInfo ''u1'' \<lparr> server_id = ''srv'', server_version = ''2.0'',
       schema_version = 28, min_supported_schema_version = None \<rparr> open_client) = Connected \<and>
   snap_authRequired (getStatus (handleServerInfo ''u1'' \<lparr> server_id = ''srv'',
       server_version = ''2.0'', schema_version = 28, min_supported_schema_version = None \<rparr>
       open_client)) \<and>
   \<not> snap_authenticated (getStatus (handleServerInfo ''u1'' \<lparr> server_id = ''srv'',
       server_version = ''2.0'', schema_version = 28, min_supported_schema_version = None \<rparr>
       open_client))"
  using server_info_handshake [where info = "\<lparr> server_id = ''srv'', server_version = ''2.0'',
           schema_version = 27, min_supported_schema_version = None \<rparr>"
           and mid = "''u1''" and s = open_client]
        server_info_handshake [where info = "\<lparr> server_id = ''srv'', server_version = ''2.0'',
           schema_version = 28, min_supported_schema_version = None \<rparr>"
           and mid = "''u1''" and s = open_client]
  by (simp add: open_client_fields)

section \<open>C8: sendCommand needs an open socket\<close>

text \<open>
  C8. Without a socket in state \<open>OPEN\<close>, \<^verbatim>\<open>sendCommand\<close> throws the not-connected
  error and the client is unchanged: nothing is written, nothing is registered. With an
  open socket it registers the request under the message id, with a timer of 12000 ms
  set before the frame is written; the frame carries the command and the message id;
  and that timer, when it fires, rejects the request with the command-timeout message.
\<close>

theorem sendCommand_requires_open_socket:
  "(ws s \<noteq> Some OPEN \<longrightarrow>
      sendCommand who mid command args s = Inl ''Not connected to Music Assistant.'' \<and>
      handle_event P (EvSendCommand mid command args) s = s) \<and>
   (ws s = Some OPEN \<longrightarrow>
      (\<exists>s'. sendCommand who mid command args s = Inr (next_handle s, s') \<and>
            map_of (pending s') mid
              = Some \<lparr> timeout = next_handle s, awaiting = who, partialResults = [] \<rparr> \<and>
            timers s' (next_handle s)
              = Some \<lparr> tc_messageId = mid, tc_command = command, tc_awaiting = who \<rparr> \<and>
            log s' = log s @
              [SetTimeout (next_handle s) 12000,
               SocketSend (JObject ([(''command'', JString command), (''message_id'', JString mid)]
                  @ (case args of None \<Rightarrow> []
                     | Some a \<Rightarrow> if length a > 0 then [(''args'', JObject a)] else [])))] \<and>
            log (timer_fires (next_handle s) s') = log s' @
              [Reject (next_handle s) (''Music Assistant command timeout: '' @ command)]))"
proof (intro conjI impI)
  assume closed: "ws s \<noteq> Some OPEN"
  show "sendCommand who mid command args s = Inl ''Not connected to Music Assistant.''"
    using closed by (simp add: sendCommand_def)
  show "handle_event P (EvSendCommand mid command args) s = s"
    using closed by (simp add: sendCommand_def)
next
  assume opened: "ws s = Some OPEN"
  then obtain s' where send: "sendCommand who mid command args s = Inr (next_handle s, s')"
    by (simp add: sendCommand_def Let_def)
  note f = sendCommand_Inr [OF send]
  have "map_of (pending s') mid
          = Some \<lparr> timeout = next_handle s, awaiting = who, partialResults = [] \<rparr>"
    by (simp add: f(5) update_conv')
  moreover have "timers s' (next_handle s)
          = Some \<lparr> tc_messageId = mid, tc_command = command, tc_awaiting = who \<rparr>"
    by (simp add: f(6))
  moreover have "log s' = log s @
              [SetTimeout (next_handle s) 12000,
               SocketSend (JObject ([(''command'', JString command), (''message_id'', JString mid)]
                  @ (case args of None \<Rightarrow> []
                     | Some a \<Rightarrow> if length a > 0 then [(''args'', JObject a)] else [])))]"
    by (simp add: f(7) COMMAND_TIMEOUT_MS_def command_payload_def)
  moreover have "log (timer_fires (next_handle s) s') = log s' @
              [Reject (next_handle s) (''Music Assistant command timeout: '' @ command)]"
    by (simp add: timer_fires_def f(6) Let_def)
  ultimately show "\<exists>s'. sendCommand who mid command args s = Inr (next_handle s, s') \<and>
            map_of (pending s') mid
              = Some \<lparr> timeout = next_handle s, awaiting = who, partialResults = [] \<rparr> \<and>
            timers s' (next_handle s)
              = Some \<lparr> tc_messageId = mid, tc_command = command, tc_awaiting = who \<rparr> \<and>
            log s' = log s @
              [SetTimeout (next_handle s) 12000,
               SocketSend (JObject ([(''command'', JString command), (''message_id'', JString mid)]
                  @ (case args of None \<Rightarrow> []
                     | Some a \<Rightarrow> if length a > 0 then [(''args'', JObject a)] else [])))] \<and>
            log (timer_fires (next_handle s) s') = log s' @
              [Reject (next_handle s) (''Music Assistant command timeout: '' @ command)]"
    using send by blast
qed

text \<open>No socket, a closing socket, and an open socket.\<close>

theorem sendCommand_requires_open_socket_witness:
  "ws new_client \<noteq> Some OPEN \<and>
   sendCommand Caller ''u1'' ''players/all'' None new_client
     = Inl ''Not connected to Music Assistant.'' \<and>
   ws (open_client\<lparr> ws := Some CLOSING \<rparr>) \<noteq> Some OPEN \<and>
   sendCommand Caller ''u1'' ''players/all'' None (open_client\<lparr> ws := Some CLOSING \<rparr>)
     = Inl ''Not connected to Music Assistant.'' \<and>
   ws open_client = Some OPEN \<and>
   isl (sendCommand Caller ''u1'' ''players/all'' None open_client) = False"
proof -
  have a: "ws new_client \<noteq> Some OPEN" by (simp add: new_client_def)
  have b: "ws (open_client\<lparr> ws := Some CLOSING \<rparr>) \<noteq> Some OPEN" by simp
  have c: "ws open_client = Some OPEN" by (simp add: open_client_fields)
  from sendCommand_requires_open_socket [where s = open_client and who = Caller and mid = "''u1''"
         and command = "''players/all''" and args = None, THEN conjunct2] c
  have "isl (sendCommand Caller ''u1'' ''players/all'' None open_client) = False"
    by auto
  then show ?thesis
    using a b c
      sendCommand_requires_open_socket [where s = new_client and who = Caller and mid = "''u1''"
         and command = "''players/all''" and args = None, THEN conjunct1]
      sendCommand_requires_open_socket [where s = "open_client\<lparr> ws := Some CLOSING \<rparr>"
         and who = Caller and mid = "''u1''" and command = "''players/all''" and args = None,
         THEN conjunct1]
    by simp
qed

section \<open>C7: classification of incoming frames\<close>

lemma is_string_iff: "is_string v \<longleftrightarrow> (\<exists>x. v = Some (JString x))"
  by (cases v rule: is_string.cases) simp_all

lemma is_number_iff: "is_number v \<longleftrightarrow> (\<exists>x. v = Some (JNumber x))"
  by (cases v rule: is_number.cases) simp_all

lemma parseServerInfo_None:
  "\<not> (is_string (field r ''server_id'') \<and> is_string (field r ''server_version'')
       \<and> is_number (field r ''schema_version'')) \<Longrightarrow> parseServerInfo r = None"
  by (auto simp: parseServerInfo_def is_string_iff is_number_iff split: option.splits json.splits)

lemma parseEventMessage_None:
  "\<not> is_string (field r ''event'') \<Longrightarrow> parseEventMessage r = None"
  by (auto simp: parseEventMessage_def is_string_iff split: option.splits json.splits)

lemma parseResultMessage_None:
  "\<not> is_string (field r ''message_id'') \<Longrightarrow> parseResultMessage r = None"
  by (auto simp: parseResultMessage_def is_string_iff split: option.splits json.splits)

lemma parseResultMessage_success:
  "field r ''message_id'' = Some (JString m) \<Longrightarrow> \<not> is_string (field r ''error_code'') \<Longrightarrow>
   parseResultMessage r
     = Some (ResultSuccess m (field r ''result'') (field r ''partial'' = Some (JBool True)))"
  by (auto simp: parseResultMessage_def is_string_iff split: option.splits json.splits)

text \<open>
  C7. \<^verbatim>\<open>handleMessage\<close> leaves the client unchanged when the frame is not valid JSON,
  when it parses to something that is not an object, and when it is an array. Otherwise
  a frame with a string \<open>server_id\<close>, a string \<open>server_version\<close> and a numeric
  \<open>schema_version\<close> goes to \<^verbatim>\<open>handleServerInfo\<close>, whatever else it holds; failing that,
  a frame with a string \<open>event\<close> goes to the event listeners; failing that, a frame with
  a string \<open>message_id\<close> goes to \<^verbatim>\<open>handleResultMessage\<close> (as an error result when it
  has a string \<open>error_code\<close>); and a frame of none of the three shapes is ignored.
\<close>

theorem handleMessage_classification:
  "(P raw = None \<longrightarrow> handleMessage P mid raw s = s) \<and>
   (\<forall>v. P raw = Some v \<and> asRecord v = None \<longrightarrow> handleMessage P mid raw s = s) \<and>
   (\<forall>xs. P raw = Some (JArray xs) \<longrightarrow> handleMessage P mid raw s = s) \<and>
   (\<forall>v r a b n.
      P raw = Some v \<and> asRecord v = Some r \<and>
      field r ''server_id'' = Some (JString a) \<and>
      field r ''server_version'' = Some (JString b) \<and>
      field r ''schema_version'' = Some (JNumber n) \<longrightarrow>
      handleMessage P mid raw s =
        handleServerInfo mid
          \<lparr> server_id = a, server_version = b, schema_version = n,
            min_supported_schema_version =
              (case field r ''min_supported_schema_version'' of
                 Some (JNumber m) \<Rightarrow> Some m | _ \<Rightarrow> None) \<rparr> s) \<and>
   (\<forall>v r e.
      P raw = Some v \<and> asRecord v = Some r \<and>
      \<not> (is_string (field r ''server_id'') \<and> is_string (field r ''server_version'')
         \<and> is_number (field r ''schema_version'')) \<and>
      field r ''event'' = Some (JString e) \<longrightarrow>
      handleMessage P mid raw s =
        emit_effect (EventDispatch
          \<lparr> event = e,
            object_id = (case field r ''object_id'' of Some (JString oid) \<Rightarrow> Some oid | _ \<Rightarrow> None),
            data = field r ''data'' \<rparr>) s) \<and>
   (\<forall>v r m c.
      P raw = Some v \<and> asRecord v = Some r \<and>
      \<not> (is_string (field r ''server_id'') \<and> is_string (field r ''server_version'')
         \<and> is_number (field r ''schema_version'')) \<and>
      \<not> is_string (field r ''event'') \<and>
      field r ''message_id'' = Some (JString m) \<and>
      field r ''error_code'' = Some (JString c) \<longrightarrow>
      handleMessage P mid raw s =
        handleResultMessage
          (ResultError m c (case field r ''details'' of Some (JString d) \<Rightarrow> Some d | _ \<Rightarrow> None)) s) \<and>
   (\<forall>v r m.
      P raw = Some v \<and> asRecord v = Some r \<and>
      \<not> (is_string (field r ''server_id'') \<and> is_string (field r ''server_version'')
         \<and> is_number (field r ''schema_version'')) \<and>
      \<not> is_string (field r ''event'') \<and>
      field r ''message_id'' = Some (JString m) \<and>
      \<not> is_string (field r ''error_code'') \<longrightarrow>
      handleMessage P mid raw s =
        handleResultMessage
          (ResultSuccess m (field r ''result'') (field r ''partial'' = Some (JBool True))) s) \<and>
   (\<forall>v r.
      P raw = Some v \<and> asRecord v = Some r \<and>
      \<not> (is_string (field r ''server_id'') \<and> is_string (field r ''server_version'')
         \<and> is_number (field r ''schema_version'')) \<and>
      \<not> is_string (field r ''event'') \<and>
      \<not> is_string (field r ''message_id'') \<longrightarrow>
      handleMessage P mid raw s = s)"
proof (intro conjI allI impI)
  show "P raw = None \<Longrightarrow> handleMessage P mid raw s = s"
    by (simp add: handleMessage_def)
next
  fix v assume "P raw = Some v \<and> asRecord v = None"
  then show "handleMessage P mid raw s = s"
    by (simp add: handleMessage_def)
next
  fix xs assume "P raw = Some (JArray xs)"
  then show "handleMessage P mid raw s = s"
    by (simp add: handleMessage_def parseServerInfo_def parseEventMessage_def
          parseResultMessage_def field_def)
next
  fix v r a b n
  assume "P raw = Some v \<and> asRecord v = Some r \<and>
      field r ''server_id'' = Some (JString a) \<and>
      field r ''server_version'' = Some (JString b) \<and>
      field r ''schema_version'' = Some (JNumber n)"
  then show "handleMessage P mid raw s =
        handleServerInfo mid
          \<lparr> server_id = a, server_version = b, schema_version = n,
            min_supported_schema_version =
              (case field r ''min_supported_schema_version'' of
                 Some (JNumber m) \<Rightarrow> Some m | _ \<Rightarrow> None) \<rparr> s"
    by (simp add: handleMessage_def parseServerInfo_def)
next
  fix v r e
  assume "P raw = Some v \<and> asRecord v = Some r \<and>
      \<not> (is_string (field r ''server_id'') \<and> is_string (field r ''server_version'')
         \<and> is_number (field r ''schema_version'')) \<and>
      field r ''event'' = Some (JString e)"
  then show "handleMessage P mid raw s =
        emit_effect (EventDispatch
          \<lparr> event = e,
            object_id = (case field r ''object_id'' of Some (JString oid) \<Rightarrow> Some oid | _ \<Rightarrow> None),
            data = field r ''data'' \<rparr>) s"
    by (simp add: handleMessage_def parseServerInfo_None parseEventMessage_def)
next
  fix v r m c
  assume "P raw = Some v \<and> asRecord v = Some r \<and>
      \<not> (is_string (field r ''server_id'') \<and> is_string (field r ''server_version'')
         \<and> is_number (field r ''schema_version'')) \<and>
      \<not> is_string (field r ''event'') \<and>
      field r ''message_id'' = Some (JString m) \<and>
      field r ''error_code'' = Some (JString c)"
  then show "handleMessage P mid raw s =
        handleResultMessage
          (ResultError m c (case field r ''details'' of Some (JString d) \<Rightarrow> Some d | _ \<Rightarrow> None)) s"
    by (simp add: handleMessage_def parseServerInfo_None parseEventMessage_None
          parseResultMessage_def)
next
  fix v r m
  assume "P raw = Some v \<and> asRecord v = Some r \<and>
      \<not> (is_string (field r ''server_id'') \<and> is_string (field r ''server_version'')
         \<and> is_number (field r ''schema_version'')) \<and>
      \<not> is_string (field r ''event'') \<and>
      field r ''message_id'' = Some (JString m) \<and>
      \<not> is_string (field r ''error_code'')"
  then show "handleMessage P mid raw s =
        handleResultMessage
          (ResultSuccess m (field r ''result'') (field r ''partial'' = Some (JBool True))) s"
    by (simp add: handleMessage_def parseServerInfo_None parseEventMessage_None
          parseResultMessage_success)
next
  fix v r
  assume "P raw = Some v \<and> asRecord v = Some r \<and>
      \<not> (is_string (field r ''server_id'') \<and> is_string (field r ''server_version'')
         \<and> is_number (field r ''schema_version'')) \<and>
      \<not> is_string (field r ''event'') \<and>
      \<not> is_string (field r ''message_id'')"
  then show "handleMessage P mid raw s = s"
    by (simp add: handleMessage_def parseServerInfo_None parseEventMessage_None
          parseResultMessage_None)
qed

lemma example_parse_simps:
  "example_parse ''{server_id:'' = None"
  "example_parse ''42'' = Some (JNumber 42)"
  "example_parse ''{server_id:srv,server_version:2.0,schema_version:27,event:e,message_id:u1}''
     = Some (JObject [(''server_id'', JString ''srv''), (''server_version'', JString ''2.0''),
                      (''schema_version'', JNumber 27), (''event'', JString ''e''),
                      (''message_id'', JString ''u1'')])"
  "example_parse ''{event:queue_updated,message_id:u1}''
     = Some (JObject [(''event'', JString ''queue_updated''), (''message_id'', JString ''u1'')])"
  "example_parse ''{message_id:u1,result:[a],partial:true}''
     = Some (JObject [(''message_id'', JString ''u1''), (''result'', JArray [JString ''a'']),
                      (''partial'', JBool True)])"
  "example_parse ''{}'' = Some (JObject [])"
  by (simp_all add: example_parse_def)

text \<open>The six frames of \<open>example_parse\<close>, received with one request pending.\<close>

theorem handleMessage_classification_witness:
  "example_parse ''{server_id:'' = None \<and>
   handleMessage example_parse ''u2'' ''{server_id:'' one_request = one_request \<and>
   example_parse ''42'' = Some (JNumber 42) \<and> asRecord (JNumber 42) = None \<and>
   handleMessage example_parse ''u2'' ''42'' one_request = one_request \<and>
   handleMessage example_parse ''u2''
       ''{server_id:srv,server_version:2.0,schema_version:27,event:e,message_id:u1}'' one_request
     = handleServerInfo ''u2'' \<lparr> server_id = ''srv'', server_version = ''2.0'',
         schema_version = 27, min_supported_schema_version = None \<rparr> one_request \<and>
   handleMessage example_parse ''u2'' ''{event:queue_updated,message_id:u1}'' one_request
     = emit_effect (EventDispatch \<lparr> event = ''queue_updated'', object_id = None, data = None \<rparr>)
         one_request \<and>
   handleMessage example_parse ''u2'' ''{message_id:u1,result:[a],partial:true}'' one_request
     = handleResultMessage (ResultSuccess ''u1'' (Some (JArray [JString ''a''])) True) one_request \<and>
   handleMessage example_parse ''u2'' ''{}'' one_request = one_request"
proof -
  note t = handleMessage_classification [where P = example_parse and mid = "''u2''"
      and s = one_request]
  have a: "handleMessage example_parse ''u2'' ''{server_id:'' one_request = one_request"
    using t [where raw = "''{server_id:''", THEN conjunct1] by (simp add: example_parse_simps)
  have b: "handleMessage example_parse ''u2'' ''42'' one_request = one_request"
    using t [where raw = "''42''", THEN conjunct2, THEN conjunct1, rule_format, of "JNumber 42"]
    by (simp add: example_parse_simps)
  have c: "handleMessage example_parse ''u2''
       ''{server_id:srv,server_version:2.0,schema_version:27,event:e,message_id:u1}'' one_request
     = handleServerInfo ''u2'' \<lparr> server_id = ''srv'', server_version = ''2.0'',
         schema_version = 27, min_supported_schema_version = None \<rparr> one_request"
    using t [where raw = "''{server_id:srv,server_version:2.0,schema_version:27,event:e,message_id:u1}''",
        THEN conjunct2, THEN conjunct2, THEN conjunct2, THEN conjunct1, rule_format,
        of "JObject [(''server_id'', JString ''srv''), (''server_version'', JString ''2.0''),
                      (''schema_version'', JNumber 27), (''event'', JString ''e''),
                      (''message_id'', JString ''u1'')]"
           "[(''server_id'', JString ''srv''), (''server_version'', JString ''2.0''),
                      (''schema_version'', JNumber 27), (''event'', JString ''e''),
                      (''message_id'', JString ''u1'')]" "''srv''" "''2.0''" 27]
    by (simp add: example_parse_simps field_def)
  have d: "handleMessage example_parse ''u2'' ''{event:queue_updated,message_id:u1}'' one_request
     = emit_effect (EventDispatch \<lparr> event = ''queue_updated'', object_id = None, data = None \<rparr>)
         one_request"
    using t [where raw = "''{event:queue_updated,message_id:u1}''",
        THEN conjunct2, THEN conjunct2, THEN conjunct2, THEN conjunct2, THEN conjunct1, rule_format,
        of "JObject [(''event'', JString ''queue_updated''), (''message_id'', JString ''u1'')]"
           "[(''event'', JString ''queue_updated''), (''message_id'', JString ''u1'')]"
           "''queue_updated''"]
    by (simp add: example_parse_simps field_def)
  have e: "handleMessage example_parse ''u2'' ''{message_id:u1,result:[a],partial:true}'' one_request
     = handleResultMessage (ResultSuccess ''u1'' (Some (JArray [JString ''a''])) True) one_request"
    using t [where raw = "''{message_id:u1,result:[a],partial:true}''",
        THEN conjunct2, THEN conjunct2, THEN conjunct2, THEN conjunct2, THEN conjunct2,
        THEN conjunct2, THEN conjunct1, rule_format,
        of "JObject [(''message_id'', JString ''u1''), (''result'', JArray [JString ''a'']),
                      (''partial'', JBool True)]"
           "[(''message_id'', JString ''u1''), (''result'', JArray [JString ''a'']),
                      (''partial'', JBool True)]" "''u1''"]
    by (simp add: example_parse_simps field_def)
  have f: "handleMessage example_parse ''u2'' ''{}'' one_request = one_request"
    using t [where raw = "''{}''",
        THEN conjunct2, THEN conjunct2, THEN conjunct2, THEN conjunct2, THEN conjunct2,
        THEN conjunct2, THEN conjunct2, rule_format, of "JObject []" "[]"]
    by (simp add: example_parse_simps field_def)
  show ?thesis
    using a b c d e f by (simp add: example_parse_simps)
qed

section \<open>C4: resolveControllingPlayer terminates\<close>





lemma walk_parents_None [simp]: "walk_parents playersCache None visited = None"
  by (subst walk_parents.simps) simp









section \<open>C10: explicit player ids take precedence\<close>

lemma set_array_from_set [simp]: "set (array_from_set xs) = set xs"
  by (induction xs rule: array_from_set.induct) auto

lemma distinct_array_from_set [simp]: "distinct (array_from_set xs)"
  by (induction xs rule: array_from_set.induct) auto

lemma array_from_set_Nil_iff [simp]: "array_from_set xs = [] \<longleftrightarrow> xs = []"
  by (cases xs) simp_all




section \<open>C6: adjustVolume on a group\<close>










section \<open>C5: poll cycles are coalesced\<close>








end
